theory Spec2Isabelle
  imports Complex_Main
begin

section \<open>Data model (types.ts)\<close>

text \<open>
  A JavaScript \<^verbatim>\<open>number\<close> is modelled as a real: rounding, NaN and infinities are
  outside the model. Counts and array indices are natural numbers.

  \<^verbatim>\<open>Point\<close> objects are shared: \<^verbatim>\<open>system.points[i]\<close> and
  \<^verbatim>\<open>stick.p1\<close>/\<^verbatim>\<open>stick.p2\<close> refer to the same mutable objects. The
  model therefore keeps an explicit object store: a reference is an address, the store
  is the list of all allocated \<^verbatim>\<open>Point\<close> objects, and arrays and sticks hold
  references. Writing a field of an object replaces the object at its address.
\<close>

record point =
  x :: real
  y :: real
  oldx :: real
  oldy :: real
  pinned :: bool

type_synonym ref = nat

type_synonym store = "point list"

record stick =
  p1 :: ref
  p2 :: ref
  length' :: real

record rope_system =
  heap :: store
  points :: "ref list"
  sticks :: "stick list"
  iterations :: nat

section \<open>The physics engine (utils/physics)\<close>

definition GRAVITY :: real where "GRAVITY = 0.5"
definition FRICTION :: real where "FRICTION = 0.99"
definition GROUND_FRICTION :: real where "GROUND_FRICTION = 0.5"
definition WALL_BOUNCE :: real where "WALL_BOUNCE = 0.5"

text \<open>
  \<^verbatim>\<open>createRope\<close>: the first loop allocates one object per index (object \<open>i\<close>
  gets address \<open>i\<close>) and pushes its reference; the second loop builds the sticks from
  \<^verbatim>\<open>points[i]\<close> and \<^verbatim>\<open>points[i + 1]\<close>. The segment count is a
  non-negative integer, so \<^verbatim>\<open>segments\<close> is a natural number here.
\<close>

definition new_point :: "real \<Rightarrow> real \<Rightarrow> real \<Rightarrow> nat \<Rightarrow> point" where
  "new_point startX startY segmentLength i =
     \<lparr> x = startX,
       y = startY + real i * segmentLength,
       oldx = startX,
       oldy = startY + real i * segmentLength,
       pinned = (i = 0) \<rparr>"

definition createRope :: "real \<Rightarrow> real \<Rightarrow> nat \<Rightarrow> real \<Rightarrow> rope_system" where
  "createRope startX startY segments segmentLength =
     (let hp = map (new_point startX startY segmentLength) [0..<segments];
          pts = [0..<segments];
          sts = map (\<lambda>i. \<lparr> p1 = pts ! i, p2 = pts ! (i + 1), length' = segmentLength \<rparr>)
                    [0..<segments - 1]
      in \<lparr> heap = hp, points = pts, sticks = sts, iterations = 600 \<rparr>)"

text \<open>The body of \<^verbatim>\<open>if (!p.pinned)\<close>, in three parts: the Verlet update (lines
  42--49), the floor (lines 55--62) and the walls (lines 65--76).\<close>

definition verlet :: "point \<Rightarrow> point" where
  "verlet p =
     (let vx = (x p - oldx p) * FRICTION;
          vy = (y p - oldy p) * FRICTION;
          p = p\<lparr>oldx := x p\<rparr>;
          p = p\<lparr>oldy := y p\<rparr>;
          p = p\<lparr>x := x p + vx\<rparr>;
          p = p\<lparr>y := y p + vy\<rparr>
      in p\<lparr>y := y p + GRAVITY\<rparr>)"

definition floor_collide :: "real \<Rightarrow> real \<Rightarrow> point \<Rightarrow> point" where
  "floor_collide height r p =
     (let floorY = height - r
      in if y p > floorY then
           (let p = p\<lparr>y := floorY\<rparr>;
                currentVx = x p - oldx p;
                p = p\<lparr>oldx := x p - currentVx * GROUND_FRICTION\<rparr>
            in p\<lparr>oldy := y p\<rparr>)
         else p)"

definition wall_collide :: "real \<Rightarrow> real \<Rightarrow> point \<Rightarrow> point" where
  "wall_collide width r p =
     (let leftWall = r;
          rightWall = width - r
      in if x p < leftWall then
           (let p = p\<lparr>x := leftWall\<rparr>;
                currentVx = x p - oldx p
            in p\<lparr>oldx := x p + currentVx * WALL_BOUNCE\<rparr>)
         else if x p > rightWall then
           (let p = p\<lparr>x := rightWall\<rparr>;
                currentVx = x p - oldx p
            in p\<lparr>oldx := x p + currentVx * WALL_BOUNCE\<rparr>)
         else p)"

definition update_point :: "real \<Rightarrow> real \<Rightarrow> real \<Rightarrow> ref list \<Rightarrow> nat \<Rightarrow> store \<Rightarrow> store" where
  "update_point width height bulbRadius pts i h =
     (let a = pts ! i
      in if \<not> pinned (h ! a) then
           (let r = (if i = length pts - 1 then bulbRadius else 0)
            in h[a := wall_collide width r (floor_collide height r (verlet (h ! a)))])
         else h)"

text \<open>The first loop of \<^verbatim>\<open>updatePhysics\<close>, \<open>i\<close> from 0 to \<open>points.length - 1\<close>.\<close>

definition integrate :: "real \<Rightarrow> real \<Rightarrow> real \<Rightarrow> ref list \<Rightarrow> store \<Rightarrow> store" where
  "integrate width height bulbRadius pts h =
     fold (update_point width height bulbRadius pts) [0..<length pts] h"

text \<open>Field writes \<^verbatim>\<open>o.x += d\<close> and \<^verbatim>\<open>o.y += d\<close> on the object at an address.\<close>

definition add_x :: "ref \<Rightarrow> real \<Rightarrow> store \<Rightarrow> store" where
  "add_x a d h = h[a := (h ! a)\<lparr>x := x (h ! a) + d\<rparr>]"

definition add_y :: "ref \<Rightarrow> real \<Rightarrow> store \<Rightarrow> store" where
  "add_y a d h = h[a := (h ! a)\<lparr>y := y (h ! a) + d\<rparr>]"

definition stick_distance :: "stick \<Rightarrow> store \<Rightarrow> real" where
  "stick_distance stick h =
     (let dx = x (h ! p2 stick) - x (h ! p1 stick);
          dy = y (h ! p2 stick) - y (h ! p1 stick)
      in sqrt (dx * dx + dy * dy))"

definition resolveStick :: "stick \<Rightarrow> store \<Rightarrow> store" where
  "resolveStick stick h =
     (let dx = x (h ! p2 stick) - x (h ! p1 stick);
          dy = y (h ! p2 stick) - y (h ! p1 stick);
          distance = sqrt (dx * dx + dy * dy)
      in if distance = 0 then h
         else
           (let difference = length' stick - distance;
                percent = difference / distance / 2;
                offsetX = dx * percent;
                offsetY = dy * percent;
                p1Pinned = pinned (h ! p1 stick);
                p2Pinned = pinned (h ! p2 stick)
            in if p1Pinned \<and> \<not> p2Pinned then
                 add_y (p2 stick) (offsetY * 2) (add_x (p2 stick) (offsetX * 2) h)
               else if \<not> p1Pinned \<and> p2Pinned then
                 add_y (p1 stick) (- (offsetY * 2)) (add_x (p1 stick) (- (offsetX * 2)) h)
               else if \<not> p1Pinned \<and> \<not> p2Pinned then
                 add_y (p2 stick) offsetY
                   (add_x (p2 stick) offsetX
                     (add_y (p1 stick) (- offsetY)
                       (add_x (p1 stick) (- offsetX) h)))
               else h))"

text \<open>The divisors that one call of \<^verbatim>\<open>resolveStick\<close> divides by, in evaluation
  order (line 103, reached only after the guard of line 100).\<close>

definition resolveStick_divisors :: "stick \<Rightarrow> store \<Rightarrow> real list" where
  "resolveStick_divisors stick h =
     (let dx = x (h ! p2 stick) - x (h ! p1 stick);
          dy = y (h ! p2 stick) - y (h ! p1 stick);
          distance = sqrt (dx * dx + dy * dy)
      in if distance = 0 then [] else [distance, 2])"

text \<open>One iteration of the outer loop: a forward pass, then a backward pass.\<close>

definition relax_pass :: "stick list \<Rightarrow> store \<Rightarrow> store" where
  "relax_pass sts h = fold resolveStick (rev sts) (fold resolveStick sts h)"

definition relax :: "nat \<Rightarrow> stick list \<Rightarrow> store \<Rightarrow> store" where
  "relax n sts h = (relax_pass sts ^^ n) h"

definition updatePhysics :: "rope_system \<Rightarrow> real \<Rightarrow> real \<Rightarrow> real \<Rightarrow> rope_system" where
  "updatePhysics system width height bulbRadius =
     system\<lparr>heap :=
       relax (iterations system) (sticks system)
         (integrate width height bulbRadius (points system) (heap system))\<rparr>"

section \<open>The scene (components/BulbScene): interaction and frame loop\<close>

text \<open>
  The refs of the component that the physics reads or writes. \<^verbatim>\<open>dragRef\<close> is
  flattened into its two fields; a \<^verbatim>\<open>{x, y}\<close> coordinate pair is a pair of reals.
  Canvas, drawing and the bulb toggle do not touch the rope and are left out.
\<close>

record scene =
  ropeRef :: "rope_system option"
  isDragging :: bool
  pointIndex :: "nat option"
  mouseRef :: "real \<times> real"
  mountRef :: "(real \<times> real) option"

text \<open>Reading a property of \<^verbatim>\<open>undefined\<close> (an element of an empty
  \<^verbatim>\<open>points\<close> array) throws.\<close>

datatype error = TypeError

definition INITIAL_SEGMENT_COUNT :: nat where "INITIAL_SEGMENT_COUNT = 40"
definition BULB_RADIUS :: real where "BULB_RADIUS = 30"

text \<open>The literals \<^verbatim>\<open>25\<close> (line 104), \<^verbatim>\<open>40\<close> (line 338) and
  \<^verbatim>\<open>60\<close> (line 312).\<close>

definition snag_threshold :: real where "snag_threshold = 25"
definition secure_threshold :: real where "secure_threshold = 40"
definition grab_radius :: real where "grab_radius = 60"

definition hypot :: "real \<Rightarrow> real \<Rightarrow> real" where
  "hypot a b = sqrt (a * a + b * b)"

subsection \<open>Snagging (lines 91--112)\<close>

definition snag_point :: "real \<Rightarrow> real \<Rightarrow> ref \<Rightarrow> store \<Rightarrow> store" where
  "snag_point snagX snagY a h =
     (if pinned (h ! a) then h
      else
        (let dist = hypot (x (h ! a) - snagX) (y (h ! a) - snagY)
         in if dist < snag_threshold then
              h[a := (h ! a)\<lparr>pinned := True, x := snagX, y := snagY,
                              oldx := snagX, oldy := snagY\<rparr>]
            else h))"

definition snag :: "real \<times> real \<Rightarrow> rope_system \<Rightarrow> rope_system" where
  "snag mount rope =
     (let snagX = fst mount;
          snagY = snd mount
      in rope\<lparr>heap :=
           fold (\<lambda>i. snag_point snagX snagY (points rope ! i))
                [0..<length (points rope) - 1] (heap rope)\<rparr>)"

definition snag_phase :: "scene \<Rightarrow> scene" where
  "snag_phase sc =
     (case (ropeRef sc, mountRef sc) of
        (Some rope, Some mount) \<Rightarrow>
          if isDragging sc then sc\<lparr>ropeRef := Some (snag mount rope)\<rparr> else sc
      | _ \<Rightarrow> sc)"

subsection \<open>Winching (lines 114--166)\<close>

text \<open>The search loop runs \<open>i\<close> from \<open>points.length - 2\<close> down to 0 and stops at the
  first pinned point; \<open>anchorIndex\<close> stays 0 when there is none.\<close>

definition find_anchor :: "ref list \<Rightarrow> store \<Rightarrow> nat" where
  "find_anchor pts h =
     (case List.find (\<lambda>i. pinned (h ! (pts ! i))) (rev [0..<length pts - 1]) of
        None \<Rightarrow> 0
      | Some i \<Rightarrow> i)"

definition set_stick_length :: "real \<Rightarrow> nat \<Rightarrow> stick list \<Rightarrow> stick list" where
  "set_stick_length l i sts = sts[i := (sts ! i)\<lparr>length' := l\<rparr>]"

definition winch_point ::
  "ref list \<Rightarrow> ref \<Rightarrow> real \<Rightarrow> real \<Rightarrow> nat \<Rightarrow> nat \<Rightarrow> nat option \<Rightarrow> nat \<Rightarrow> store \<Rightarrow> store" where
  "winch_point pts anchor dx dy activeSegments anchorIndex dragIndex i h =
     (let pointIdx = anchorIndex + i;
          a = pts ! pointIdx;
          t = real i / real activeSegments;
          targetX = x (h ! anchor) + dx * t;
          targetY = y (h ! anchor) + dy * t;
          h = h[a := (h ! a)\<lparr>x := targetX, y := targetY, oldx := targetX, oldy := targetY\<rparr>]
      in if Some pointIdx = dragIndex then h[a := (h ! a)\<lparr>pinned := True\<rparr>] else h)"

definition winch :: "real \<times> real \<Rightarrow> nat option \<Rightarrow> rope_system \<Rightarrow> error + rope_system" where
  "winch mouse dragIndex rope =
     (let pts = points rope;
          h = heap rope;
          anchorIndex = find_anchor pts h
      in if pts = [] then Inl TypeError
         else
           (let anchor = pts ! anchorIndex;
                dx = fst mouse - x (h ! anchor);
                dy = snd mouse - y (h ! anchor);
                distToAnchor = sqrt (dx * dx + dy * dy);
                activeSegments = (length pts - 1) - anchorIndex
            in if activeSegments > 0 then
                 (let newSegmentLength = distToAnchor / real activeSegments;
                      sts = fold (set_stick_length newSegmentLength)
                                 [anchorIndex..<length (sticks rope)] (sticks rope);
                      h = fold (winch_point pts anchor dx dy activeSegments anchorIndex dragIndex)
                               [1..<activeSegments + 1] h
                  in Inr (rope\<lparr>heap := h, sticks := sts\<rparr>))
               else Inr rope))"

definition winch_phase :: "scene \<Rightarrow> error + scene" where
  "winch_phase sc =
     (case ropeRef sc of
        None \<Rightarrow> Inr sc
      | Some rope \<Rightarrow>
          if isDragging sc \<and> pointIndex sc \<noteq> None then
            (case winch (mouseRef sc) (pointIndex sc) rope of
               Inl e \<Rightarrow> Inl e
             | Inr rope' \<Rightarrow> Inr (sc\<lparr>ropeRef := Some rope'\<rparr>))
          else Inr sc)"

subsection \<open>One frame (lines 84--177)\<close>

definition physics_phase :: "real \<Rightarrow> real \<Rightarrow> real \<Rightarrow> scene \<Rightarrow> scene" where
  "physics_phase width height bulbRadius sc =
     (case ropeRef sc of
        None \<Rightarrow> sc
      | Some rope \<Rightarrow> sc\<lparr>ropeRef := Some (updatePhysics rope width height bulbRadius)\<rparr>)"

text \<open>The physics part of \<^verbatim>\<open>render\<close>. Line 175 reads \<^verbatim>\<open>lastPoint.pinned\<close>,
  which throws when there is no last point.\<close>

definition render :: "real \<Rightarrow> real \<Rightarrow> scene \<Rightarrow> error + scene" where
  "render width height sc =
     (case ropeRef sc of
        None \<Rightarrow> Inr sc
      | Some _ \<Rightarrow>
          (case winch_phase (snag_phase sc) of
             Inl e \<Rightarrow> Inl e
           | Inr sc2 \<Rightarrow>
               (let sc3 = physics_phase width height BULB_RADIUS sc2
                in case ropeRef sc3 of
                     None \<Rightarrow> Inr sc3
                   | Some rope \<Rightarrow> if points rope = [] then Inl TypeError else Inr sc3)))"

subsection \<open>Pointer handlers (lines 290--351)\<close>

text \<open>The handlers get the pointer position already translated to canvas coordinates.\<close>

definition handlePointerDown :: "real \<Rightarrow> real \<Rightarrow> bool \<Rightarrow> scene \<Rightarrow> error + scene" where
  "handlePointerDown px py isHammerMode sc =
     (case ropeRef sc of
        None \<Rightarrow> Inr sc
      | Some rope \<Rightarrow>
          (let sc = sc\<lparr>mouseRef := (px, py)\<rparr>
           in if isHammerMode then Inr (sc\<lparr>mountRef := Some (px, py)\<rparr>)
              else if points rope = [] then Inl TypeError
              else
                (let endPoint = points rope ! (length (points rope) - 1);
                     dist = hypot (px - x (heap rope ! endPoint)) (py - y (heap rope ! endPoint))
                 in if dist < grab_radius then
                      Inr (sc\<lparr>isDragging := True,
                               pointIndex := Some (length (points rope) - 1),
                               ropeRef := Some (rope\<lparr>heap :=
                                 (heap rope)[endPoint := (heap rope ! endPoint)\<lparr>pinned := True\<rparr>]\<rparr>)\<rparr>)
                    else Inr sc)))"

definition handlePointerMove :: "real \<Rightarrow> real \<Rightarrow> scene \<Rightarrow> scene" where
  "handlePointerMove px py sc = sc\<lparr>mouseRef := (px, py)\<rparr>"

text \<open>The writes of \<^verbatim>\<open>handlePointerUp\<close> to the last point, given the mount.\<close>

definition release_point :: "(real \<times> real) option \<Rightarrow> ref \<Rightarrow> store \<Rightarrow> store" where
  "release_point mount lastPt h =
     (let secured = False;
          (secured, h) =
            (case mount of
               None \<Rightarrow> (secured, h)
             | Some (snagX, snagY) \<Rightarrow>
                 (let dist = hypot (x (h ! lastPt) - snagX) (y (h ! lastPt) - snagY)
                  in if dist < secure_threshold then
                       (let h = h[lastPt := (h ! lastPt)\<lparr>pinned := True\<rparr>];
                            h = h[lastPt := (h ! lastPt)\<lparr>x := snagX\<rparr>];
                            h = h[lastPt := (h ! lastPt)\<lparr>y := snagY\<rparr>]
                        in (True, h))
                     else (secured, h)))
      in if \<not> secured then h[lastPt := (h ! lastPt)\<lparr>pinned := False\<rparr>] else h)"

definition handlePointerUp :: "scene \<Rightarrow> error + scene" where
  "handlePointerUp sc =
     (case (if isDragging sc \<and> pointIndex sc \<noteq> None then ropeRef sc else None) of
        None \<Rightarrow> Inr (sc\<lparr>isDragging := False, pointIndex := None\<rparr>)
      | Some rope \<Rightarrow>
          if points rope = [] then Inl TypeError
          else
            (let lastPt = points rope ! (length (points rope) - 1)
             in Inr (sc\<lparr>ropeRef := Some (rope\<lparr>heap := release_point (mountRef sc) lastPt (heap rope)\<rparr>),
                         isDragging := False, pointIndex := None\<rparr>)))"

subsection \<open>Initialisation (lines 42--60)\<close>

definition swing_impulse :: "rope_system \<Rightarrow> rope_system" where
  "swing_impulse rope =
     (if length (points rope) > 0 then
        (let lastPoint = points rope ! (length (points rope) - 1)
         in rope\<lparr>heap := (heap rope)[lastPoint :=
              (heap rope ! lastPoint)\<lparr>oldx := x (heap rope ! lastPoint) - 50\<rparr>]\<rparr>)
      else rope)"

definition initPhysics :: "real \<Rightarrow> real \<Rightarrow> rope_system" where
  "initPhysics width height =
     (let startX = width * 0.7;
          startY = 0;
          targetLength = height * 0.6;
          segmentLen = targetLength / real INITIAL_SEGMENT_COUNT
      in swing_impulse (createRope startX startY INITIAL_SEGMENT_COUNT segmentLen))"

definition initial_scene :: "rope_system \<Rightarrow> scene" where
  "initial_scene rope =
     \<lparr> ropeRef = Some rope, isDragging = False, pointIndex = None,
       mouseRef = (0, 0), mountRef = None \<rparr>"

subsection \<open>Reachable scenes\<close>

text \<open>The operations that change the scene: a whole frame, each of its phases alone,
  the pointer handlers and the initial impulse. A step that throws reaches nothing.\<close>

datatype event =
    Render real real
  | Snag
  | Winch
  | Physics real real real
  | PointerDown real real bool
  | PointerMove real real
  | PointerUp
  | Impulse

fun step :: "event \<Rightarrow> scene \<Rightarrow> error + scene" where
  "step (Render width height) sc = render width height sc"
| "step Snag sc = Inr (snag_phase sc)"
| "step Winch sc = winch_phase sc"
| "step (Physics width height bulbRadius) sc = Inr (physics_phase width height bulbRadius sc)"
| "step (PointerDown px py isHammerMode) sc = handlePointerDown px py isHammerMode sc"
| "step (PointerMove px py) sc = Inr (handlePointerMove px py sc)"
| "step PointerUp sc = handlePointerUp sc"
| "step Impulse sc = Inr (sc\<lparr>ropeRef := map_option swing_impulse (ropeRef sc)\<rparr>)"

inductive reachable :: "scene \<Rightarrow> scene \<Rightarrow> bool" where
  start: "reachable sc0 sc0"
| after: "reachable sc0 sc \<Longrightarrow> step ev sc = Inr sc' \<Longrightarrow> reachable sc0 sc'"

section \<open>Notions used in the statements\<close>

text \<open>A point displaced by a vector; all other fields as they were.\<close>

definition moved :: "point \<Rightarrow> real \<Rightarrow> real \<Rightarrow> point" where
  "moved p ddx ddy = p\<lparr>x := x p + ddx, y := y p + ddy\<rparr>"

text \<open>The rope of four points hanging straight down from the pinned point 0 at the
  origin, every segment at least 10 long: the shape that \<^verbatim>\<open>createRope(0, 0, 4, 10)\<close>
  has after the integration step and keeps during relaxation.\<close>

definition hanging :: "store \<Rightarrow> bool" where
  "hanging h \<longleftrightarrow>
     length h = 4 \<and>
     x (h ! 0) = 0 \<and> x (h ! 1) = 0 \<and> x (h ! 2) = 0 \<and> x (h ! 3) = 0 \<and>
     pinned (h ! 0) \<and> \<not> pinned (h ! 1) \<and> \<not> pinned (h ! 2) \<and> \<not> pinned (h ! 3) \<and>
     y (h ! 0) = 0 \<and>
     10 \<le> y (h ! 1) \<and> 10 \<le> y (h ! 2) - y (h ! 1) \<and> 10 \<le> y (h ! 3) - y (h ! 2)"

text \<open>A two-point rope being dragged, its end within reach of the mount.\<close>

definition example_rope :: rope_system where
  "example_rope =
     \<lparr> heap = [\<lparr>x = 0, y = 0, oldx = 0, oldy = 0, pinned = True\<rparr>,
               \<lparr>x = 3, y = 4, oldx = 1, oldy = 2, pinned = True\<rparr>],
       points = [0, 1],
       sticks = [\<lparr>p1 = 0, p2 = 1, length' = 5\<rparr>],
       iterations = 600 \<rparr>"

definition example_scene :: scene where
  "example_scene =
     \<lparr> ropeRef = Some example_rope, isDragging = True, pointIndex = Some 1,
       mouseRef = (3, 4), mountRef = Some (3, 6) \<rparr>"

text \<open>Two rope systems with the same structure: the same \<^verbatim>\<open>points\<close> array (the same
  references in the same order), the same number of point objects, and the same sticks
  up to their \<open>length\<close> fields.\<close>

definition same_structure :: "rope_system \<Rightarrow> rope_system \<Rightarrow> bool" where
  "same_structure rope rope' \<longleftrightarrow>
     points rope' = points rope \<and>
     length (heap rope') = length (heap rope) \<and>
     map p1 (sticks rope') = map p1 (sticks rope) \<and>
     map p2 (sticks rope') = map p2 (sticks rope) \<and>
     iterations rope' = iterations rope"

text \<open>What holds of every scene the component can be in: there is a rope, its references
  denote objects of the store, and while dragging the drag index is the last index and
  the last point is pinned.\<close>

definition scene_ok :: "scene \<Rightarrow> bool" where
  "scene_ok sc \<longleftrightarrow>
     (\<exists>rope. ropeRef sc = Some rope \<and>
        (\<forall>a \<in> set (points rope). a < length (heap rope)) \<and>
        (isDragging sc \<longrightarrow>
           points rope \<noteq> [] \<and>
           pointIndex sc = Some (length (points rope) - 1) \<and>
           pinned (heap rope ! (points rope ! (length (points rope) - 1)))))"

text \<open>\<^verbatim>\<open>createRope(0, 0, 3, 10)\<close> after a peg was placed at \<open>(0, 12)\<close> and the bulb was
  grabbed at \<open>(0, 20)\<close>.\<close>

definition example_rope3 :: rope_system where
  "example_rope3 =
     \<lparr> heap = [\<lparr>x = 0, y = 0, oldx = 0, oldy = 0, pinned = True\<rparr>,
               \<lparr>x = 0, y = 10, oldx = 0, oldy = 10, pinned = False\<rparr>,
               \<lparr>x = 0, y = 20, oldx = 0, oldy = 20, pinned = True\<rparr>],
       points = [0, 1, 2],
       sticks = [\<lparr>p1 = 0, p2 = 1, length' = 10\<rparr>, \<lparr>p1 = 1, p2 = 2, length' = 10\<rparr>],
       iterations = 600 \<rparr>"

definition example_drag :: scene where
  "example_drag =
     \<lparr> ropeRef = Some example_rope3, isDragging = True, pointIndex = Some 2,
       mouseRef = (0, 20), mountRef = Some (0, 12) \<rparr>"

section \<open>Writes to the store\<close>

lemma length_add_x [simp]: "length (add_x a d h) = length h"
  by (simp add: add_x_def)

lemma length_add_y [simp]: "length (add_y a d h) = length h"
  by (simp add: add_y_def)

lemma nth_add_x_other [simp]: "b \<noteq> a \<Longrightarrow> add_x a d h ! b = h ! b"
  by (simp add: add_x_def)

lemma nth_add_y_other [simp]: "b \<noteq> a \<Longrightarrow> add_y a d h ! b = h ! b"
  by (simp add: add_y_def)

lemma nth_add_x_same [simp]:
  "a < length h \<Longrightarrow> add_x a d h ! a = (h ! a)\<lparr>x := x (h ! a) + d\<rparr>"
  by (simp add: add_x_def)

lemma nth_add_y_same [simp]:
  "a < length h \<Longrightarrow> add_y a d h ! a = (h ! a)\<lparr>y := y (h ! a) + d\<rparr>"
  by (simp add: add_y_def)

section \<open>The constraint solver: \<^verbatim>\<open>resolveStick\<close>\<close>

lemma stick_distance_zero_iff:
  "stick_distance stick h = 0 \<longleftrightarrow>
     x (h ! p2 stick) = x (h ! p1 stick) \<and> y (h ! p2 stick) = y (h ! p1 stick)"
  by (simp add: stick_distance_def Let_def add_nonneg_eq_0_iff)

lemma stick_distance_same_ref: "p1 stick = p2 stick \<Longrightarrow> stick_distance stick h = 0"
  by (simp add: stick_distance_zero_iff)

text \<open>
  C7. \<^verbatim>\<open>resolveStick\<close> never divides by zero, and on a stick whose endpoints are at
  distance exactly zero it returns at the guard: no division is evaluated and the store
  (every field of every point) is what it was.
\<close>

theorem resolveStick_zero_distance:
  "0 \<notin> set (resolveStick_divisors stick h) \<and>
   (stick_distance stick h = 0 \<longrightarrow>
      resolveStick stick h = h \<and> resolveStick_divisors stick h = [])"
  by (simp add: resolveStick_def resolveStick_divisors_def stick_distance_def Let_def)

theorem resolveStick_zero_distance_witness:
  "stick_distance \<lparr>p1 = 0, p2 = 1, length' = 5\<rparr>
     [\<lparr>x = 3, y = 4, oldx = 0, oldy = 0, pinned = False\<rparr>,
      \<lparr>x = 3, y = 4, oldx = 1, oldy = 1, pinned = False\<rparr>] = 0
   \<and> resolveStick \<lparr>p1 = 0, p2 = 1, length' = 5\<rparr>
     [\<lparr>x = 3, y = 4, oldx = 0, oldy = 0, pinned = False\<rparr>,
      \<lparr>x = 3, y = 4, oldx = 1, oldy = 1, pinned = False\<rparr>]
     = [\<lparr>x = 3, y = 4, oldx = 0, oldy = 0, pinned = False\<rparr>,
        \<lparr>x = 3, y = 4, oldx = 1, oldy = 1, pinned = False\<rparr>]
   \<and> resolveStick_divisors \<lparr>p1 = 0, p2 = 1, length' = 5\<rparr>
     [\<lparr>x = 3, y = 4, oldx = 0, oldy = 0, pinned = False\<rparr>,
      \<lparr>x = 3, y = 4, oldx = 1, oldy = 1, pinned = False\<rparr>] = []"
proof -
  have d: "stick_distance \<lparr>p1 = 0, p2 = 1, length' = 5\<rparr>
     [\<lparr>x = 3, y = 4, oldx = 0, oldy = 0, pinned = False\<rparr>,
      \<lparr>x = 3, y = 4, oldx = 1, oldy = 1, pinned = False\<rparr>] = 0"
    by (simp add: stick_distance_def)
  from d resolveStick_zero_distance
    [of "\<lparr>p1 = 0, p2 = 1, length' = 5\<rparr>"
        "[\<lparr>x = 3, y = 4, oldx = 0, oldy = 0, pinned = False\<rparr>,
          \<lparr>x = 3, y = 4, oldx = 1, oldy = 1, pinned = False\<rparr>]"]
  show ?thesis by blast
qed

lemma resolveStick_length [simp]: "length (resolveStick stick h) = length h"
  by (simp add: resolveStick_def Let_def)

text \<open>
  C4. One call of \<^verbatim>\<open>resolveStick\<close> on a stick whose endpoints are at a nonzero
  distance, with \<open>diff = length - dist\<close>, \<open>correctionFraction = diff / dist / 2\<close> and
  \<open>(dx, dy)\<close> the vector from \<open>p1\<close> to \<open>p2\<close>: with both endpoints free, \<open>p1\<close> moves by
  \<open>(-dx * correctionFraction, -dy * correctionFraction)\<close> and \<open>p2\<close> by the negation; with
  exactly one endpoint pinned, the free one moves by twice that share and the pinned one
  stays; with both pinned the store is unchanged. No other object is written.
\<close>

theorem resolveStick_cases:
  assumes dist: "stick_distance stick h \<noteq> 0"
      and r1: "p1 stick < length h" and r2: "p2 stick < length h"
  shows "let dx = x (h ! p2 stick) - x (h ! p1 stick);
             dy = y (h ! p2 stick) - y (h ! p1 stick);
             dist = stick_distance stick h;
             diff = length' stick - dist;
             correctionFraction = diff / dist / 2;
             h' = resolveStick stick h
         in (\<not> pinned (h ! p1 stick) \<and> \<not> pinned (h ! p2 stick) \<longrightarrow>
               h' ! p1 stick =
                 moved (h ! p1 stick) (- dx * correctionFraction) (- dy * correctionFraction) \<and>
               h' ! p2 stick =
                 moved (h ! p2 stick) (dx * correctionFraction) (dy * correctionFraction))
          \<and> (pinned (h ! p1 stick) \<and> \<not> pinned (h ! p2 stick) \<longrightarrow>
               h' ! p1 stick = h ! p1 stick \<and>
               h' ! p2 stick =
                 moved (h ! p2 stick) (dx * correctionFraction * 2) (dy * correctionFraction * 2))
          \<and> (\<not> pinned (h ! p1 stick) \<and> pinned (h ! p2 stick) \<longrightarrow>
               h' ! p2 stick = h ! p2 stick \<and>
               h' ! p1 stick =
                 moved (h ! p1 stick) (- dx * correctionFraction * 2) (- dy * correctionFraction * 2))
          \<and> (pinned (h ! p1 stick) \<and> pinned (h ! p2 stick) \<longrightarrow> h' = h)
          \<and> (\<forall>a. a \<noteq> p1 stick \<and> a \<noteq> p2 stick \<longrightarrow> h' ! a = h ! a)"
proof -
  have ne: "p1 stick \<noteq> p2 stick" "p2 stick \<noteq> p1 stick"
    using dist stick_distance_same_ref by auto
  have d0: "sqrt ((x (h ! p2 stick) - x (h ! p1 stick)) * (x (h ! p2 stick) - x (h ! p1 stick))
               + (y (h ! p2 stick) - y (h ! p1 stick)) * (y (h ! p2 stick) - y (h ! p1 stick))) \<noteq> 0"
    using dist by (simp add: stick_distance_def Let_def)
  show ?thesis
    using d0 ne r1 r2
    by (simp add: resolveStick_def Let_def stick_distance_def moved_def)
qed

theorem resolveStick_cases_witness:
  "stick_distance \<lparr>p1 = 0, p2 = 1, length' = 4\<rparr>
     [\<lparr>x = 0, y = 0, oldx = 0, oldy = 0, pinned = True\<rparr>,
      \<lparr>x = 0, y = 2, oldx = 0, oldy = 2, pinned = False\<rparr>] \<noteq> 0
   \<and> resolveStick \<lparr>p1 = 0, p2 = 1, length' = 4\<rparr>
     [\<lparr>x = 0, y = 0, oldx = 0, oldy = 0, pinned = True\<rparr>,
      \<lparr>x = 0, y = 2, oldx = 0, oldy = 2, pinned = False\<rparr>] ! 1
     = \<lparr>x = 0, y = 4, oldx = 0, oldy = 2, pinned = False\<rparr>
   \<and> resolveStick \<lparr>p1 = 0, p2 = 1, length' = 4\<rparr>
     [\<lparr>x = 0, y = 0, oldx = 0, oldy = 0, pinned = True\<rparr>,
      \<lparr>x = 0, y = 2, oldx = 0, oldy = 2, pinned = False\<rparr>] ! 0
     = \<lparr>x = 0, y = 0, oldx = 0, oldy = 0, pinned = True\<rparr>"
proof -
  have d: "stick_distance \<lparr>p1 = 0, p2 = 1, length' = 4\<rparr>
     [\<lparr>x = 0, y = 0, oldx = 0, oldy = 0, pinned = True\<rparr>,
      \<lparr>x = 0, y = 2, oldx = 0, oldy = 2, pinned = False\<rparr>] = 2"
    by (simp add: stick_distance_def)
  have d0: "stick_distance \<lparr>p1 = 0, p2 = 1, length' = 4\<rparr>
     [\<lparr>x = 0, y = 0, oldx = 0, oldy = 0, pinned = True\<rparr>,
      \<lparr>x = 0, y = 2, oldx = 0, oldy = 2, pinned = False\<rparr>] \<noteq> 0"
    unfolding d by simp
  show ?thesis
    using d0 resolveStick_cases [OF d0, unfolded d Let_def]
    by (simp add: moved_def)
qed

section \<open>Pinned points and the physics step\<close>

lemma resolveStick_pinned_unchanged:
  assumes "pinned (h ! a)"
  shows "resolveStick stick h ! a = h ! a"
proof -
  have "a \<noteq> p1 stick" if "\<not> pinned (h ! p1 stick)" using that assms by auto
  moreover have "a \<noteq> p2 stick" if "\<not> pinned (h ! p2 stick)" using that assms by auto
  ultimately show ?thesis
    by (simp add: resolveStick_def Let_def)
qed

lemma update_point_pinned_unchanged:
  assumes "pinned (h ! a)"
  shows "update_point width height bulbRadius pts i h ! a = h ! a"
proof (cases "a = pts ! i")
  case True
  with assms show ?thesis by (simp add: update_point_def Let_def)
next
  case False
  then show ?thesis by (simp add: update_point_def Let_def)
qed

lemma fold_unchanged:
  assumes "\<And>e h. P (h ! a) \<Longrightarrow> f e h ! a = h ! a" and "P (h ! a)"
  shows "fold f es h ! a = h ! a"
  using assms(2) by (induction es arbitrary: h) (simp_all add: assms(1))

lemma relax_pass_pinned_unchanged:
  "pinned (h ! a) \<Longrightarrow> relax_pass sts h ! a = h ! a"
  by (simp add: relax_pass_def fold_unchanged [where P = pinned] resolveStick_pinned_unchanged)

lemma relax_pinned_unchanged:
  "pinned (h ! a) \<Longrightarrow> relax n sts h ! a = h ! a"
  by (induction n) (simp_all add: relax_def relax_pass_pinned_unchanged)

lemma integrate_pinned_unchanged:
  "pinned (h ! a) \<Longrightarrow> integrate width height bulbRadius pts h ! a = h ! a"
  by (simp add: integrate_def fold_unchanged [where P = pinned] update_point_pinned_unchanged)

lemma updatePhysics_pinned_lemma:
  assumes "pinned (heap system ! a)"
  shows "heap (updatePhysics system width height bulbRadius) ! a = heap system ! a"
  using assms
  by (simp add: updatePhysics_def relax_pinned_unchanged integrate_pinned_unchanged)

text \<open>
  C1. One call of \<^verbatim>\<open>updatePhysics\<close>, for any width, height and bulb radius, leaves
  every pinned point object as it was, in all five fields: the integration loop leaves it
  alone, and so does every call of \<^verbatim>\<open>resolveStick\<close> in the relaxation passes.
\<close>

theorem updatePhysics_pinned_unchanged:
  assumes "pinned (heap system ! a)"
  shows "heap (updatePhysics system width height bulbRadius) ! a = heap system ! a
       \<and> integrate width height bulbRadius (points system) (heap system) ! a = heap system ! a
       \<and> (\<forall>stick h. pinned (h ! a) \<longrightarrow> resolveStick stick h ! a = h ! a)"
  using assms
  by (simp add: updatePhysics_pinned_lemma integrate_pinned_unchanged
        resolveStick_pinned_unchanged)

theorem updatePhysics_pinned_unchanged_witness:
  "pinned (heap \<lparr>heap = [\<lparr>x = 0, y = 0, oldx = 3, oldy = 4, pinned = True\<rparr>,
                         \<lparr>x = 0, y = 10, oldx = 0, oldy = 9, pinned = False\<rparr>],
                 points = [0, 1],
                 sticks = [\<lparr>p1 = 0, p2 = 1, length' = 10\<rparr>],
                 iterations = 600\<rparr> ! 0)
   \<and> heap (updatePhysics
             \<lparr>heap = [\<lparr>x = 0, y = 0, oldx = 3, oldy = 4, pinned = True\<rparr>,
                      \<lparr>x = 0, y = 10, oldx = 0, oldy = 9, pinned = False\<rparr>],
              points = [0, 1],
              sticks = [\<lparr>p1 = 0, p2 = 1, length' = 10\<rparr>],
              iterations = 600\<rparr> 800 600 30) ! 0
     = \<lparr>x = 0, y = 0, oldx = 3, oldy = 4, pinned = True\<rparr>"
  using updatePhysics_pinned_unchanged
    [of "\<lparr>heap = [\<lparr>x = 0, y = 0, oldx = 3, oldy = 4, pinned = True\<rparr>,
                  \<lparr>x = 0, y = 10, oldx = 0, oldy = 9, pinned = False\<rparr>],
          points = [0, 1],
          sticks = [\<lparr>p1 = 0, p2 = 1, length' = 10\<rparr>],
          iterations = 600\<rparr>" 0 800 600 30]
  by simp

section \<open>\<^verbatim>\<open>createRope\<close> and the four-point scenario\<close>

lemma add_x_zero [simp]: "add_x a 0 h = h"
  by (simp add: add_x_def)

lemma resolveStick_vertical:
  assumes vx: "x (h ! p2 s) = x (h ! p1 s)" and lt: "y (h ! p1 s) < y (h ! p2 s)"
  shows "resolveStick s h =
           (let off = (length' s - (y (h ! p2 s) - y (h ! p1 s))) / 2
            in if pinned (h ! p1 s) \<and> \<not> pinned (h ! p2 s) then add_y (p2 s) (off * 2) h
               else if \<not> pinned (h ! p1 s) \<and> pinned (h ! p2 s) then add_y (p1 s) (- (off * 2)) h
               else if \<not> pinned (h ! p1 s) \<and> \<not> pinned (h ! p2 s) then
                 add_y (p2 s) off (add_y (p1 s) (- off) h)
               else h)"
proof -
  define d where "d = y (h ! p2 s) - y (h ! p1 s)"
  have dpos: "0 < d" using lt by (simp add: d_def)
  have sq: "sqrt ((x (h ! p2 s) - x (h ! p1 s)) * (x (h ! p2 s) - x (h ! p1 s)) + d * d) = d"
    using dpos by (simp add: vx)
  have off: "d * ((length' s - d) / d / 2) = (length' s - d) / 2"
    using dpos by simp
  show ?thesis
    unfolding resolveStick_def Let_def d_def [symmetric] sq off
    using dpos by (simp add: vx)
qed

lemma hanging_stick0:
  assumes "hanging h"
  defines "h' \<equiv> resolveStick \<lparr>p1 = 0, p2 = 1, length' = 10\<rparr> h"
  shows "hanging h'" and "y (h' ! 1) = 10" and "y (h' ! 2) = y (h ! 2)" and "y (h' ! 3) = y (h ! 3)"
proof -
  have "h' = add_y 1 (10 - y (h ! 1)) h"
    unfolding h'_def using assms(1)
    by (subst resolveStick_vertical) (simp_all add: hanging_def Let_def diff_divide_distrib)
  with assms(1) show "hanging h'" and "y (h' ! 1) = 10" and "y (h' ! 2) = y (h ! 2)"
    and "y (h' ! 3) = y (h ! 3)"
    by (simp_all add: hanging_def)
qed

lemma hanging_stick1:
  assumes "hanging h"
  defines "h' \<equiv> resolveStick \<lparr>p1 = 1, p2 = 2, length' = 10\<rparr> h"
  shows "hanging h'"
    and "y (h' ! 1) = y (h ! 1) + (y (h ! 2) - y (h ! 1) - 10) / 2"
    and "y (h' ! 2) = y (h ! 2) - (y (h ! 2) - y (h ! 1) - 10) / 2"
    and "y (h' ! 3) = y (h ! 3)"
proof -
  have "h' = add_y 2 ((10 - (y (h ! 2) - y (h ! 1))) / 2)
               (add_y 1 (- ((10 - (y (h ! 2) - y (h ! 1))) / 2)) h)"
    unfolding h'_def using assms(1)
    by (subst resolveStick_vertical) (simp_all add: hanging_def Let_def diff_divide_distrib)
  with assms(1) show "hanging h'"
    and "y (h' ! 1) = y (h ! 1) + (y (h ! 2) - y (h ! 1) - 10) / 2"
    and "y (h' ! 2) = y (h ! 2) - (y (h ! 2) - y (h ! 1) - 10) / 2"
    and "y (h' ! 3) = y (h ! 3)"
    by (simp_all add: hanging_def field_simps)
qed

lemma hanging_stick2:
  assumes "hanging h"
  defines "h' \<equiv> resolveStick \<lparr>p1 = 2, p2 = 3, length' = 10\<rparr> h"
  shows "hanging h'"
    and "y (h' ! 1) = y (h ! 1)"
    and "y (h' ! 2) = y (h ! 2) + (y (h ! 3) - y (h ! 2) - 10) / 2"
    and "y (h' ! 3) = y (h ! 3) - (y (h ! 3) - y (h ! 2) - 10) / 2"
proof -
  have "h' = add_y 3 ((10 - (y (h ! 3) - y (h ! 2))) / 2)
               (add_y 2 (- ((10 - (y (h ! 3) - y (h ! 2))) / 2)) h)"
    unfolding h'_def using assms(1)
    by (subst resolveStick_vertical) (simp_all add: hanging_def Let_def diff_divide_distrib)
  with assms(1) show "hanging h'"
    and "y (h' ! 1) = y (h ! 1)"
    and "y (h' ! 2) = y (h ! 2) + (y (h ! 3) - y (h ! 2) - 10) / 2"
    and "y (h' ! 3) = y (h ! 3) - (y (h ! 3) - y (h ! 2) - 10) / 2"
    by (simp_all add: hanging_def field_simps)
qed


lemma hanging_relax_pass:
  assumes "hanging h"
  defines "h' \<equiv> relax_pass [\<lparr>p1 = 0, p2 = 1, length' = 10\<rparr>,
                               \<lparr>p1 = 1, p2 = 2, length' = 10\<rparr>,
                               \<lparr>p1 = 2, p2 = 3, length' = 10\<rparr>] h"
  shows "hanging h'" and "y (h' ! 3) - 30 \<le> 3 / 4 * (y (h ! 3) - 30)"
    and "(y (h ! 3) - 30) / 2 \<le> y (h' ! 3) - 30"
proof -
  define h1 where "h1 = resolveStick \<lparr>p1 = 0, p2 = 1, length' = 10\<rparr> h"
  define h2 where "h2 = resolveStick \<lparr>p1 = 1, p2 = 2, length' = 10\<rparr> h1"
  define h3 where "h3 = resolveStick \<lparr>p1 = 2, p2 = 3, length' = 10\<rparr> h2"
  define h4 where "h4 = resolveStick \<lparr>p1 = 2, p2 = 3, length' = 10\<rparr> h3"
  define h5 where "h5 = resolveStick \<lparr>p1 = 1, p2 = 2, length' = 10\<rparr> h4"
  define h6 where "h6 = resolveStick \<lparr>p1 = 0, p2 = 1, length' = 10\<rparr> h5"
  have eq: "h' = h6"
    by (simp add: h'_def relax_pass_def h1_def h2_def h3_def h4_def h5_def h6_def)
  note s1 = hanging_stick0 [OF assms(1), folded h1_def]
  note s2 = hanging_stick1 [OF s1(1), folded h2_def]
  note s3 = hanging_stick2 [OF s2(1), folded h3_def]
  note s4 = hanging_stick2 [OF s3(1), folded h4_def]
  note s5 = hanging_stick1 [OF s4(1), folded h5_def]
  note s6 = hanging_stick0 [OF s5(1), folded h6_def]
  show "hanging h'" using s6(1) eq by simp
  have "10 \<le> y (h ! 3) - y (h ! 2)" using assms(1) by (simp add: hanging_def)
  then show "y (h' ! 3) - 30 \<le> 3 / 4 * (y (h ! 3) - 30)"
    unfolding eq s6(4) s5(4) s4(4) s3(4) s3(3) s2(4) s2(3) s2(2) s1(2) s1(3) s1(4)
    by (simp add: field_simps)
  have "20 \<le> y (h ! 2)" using assms(1) by (simp add: hanging_def)
  then show "(y (h ! 3) - 30) / 2 \<le> y (h' ! 3) - 30"
    unfolding eq s6(4) s5(4) s4(4) s3(4) s3(3) s2(4) s2(3) s2(2) s1(2) s1(3) s1(4)
    by (simp add: field_simps)
qed

lemma hanging_relax:
  assumes "hanging h"
  shows "hanging (relax n [\<lparr>p1 = 0, p2 = 1, length' = 10\<rparr>,
                            \<lparr>p1 = 1, p2 = 2, length' = 10\<rparr>,
                            \<lparr>p1 = 2, p2 = 3, length' = 10\<rparr>] h)
       \<and> y (relax n [\<lparr>p1 = 0, p2 = 1, length' = 10\<rparr>,
                      \<lparr>p1 = 1, p2 = 2, length' = 10\<rparr>,
                      \<lparr>p1 = 2, p2 = 3, length' = 10\<rparr>] h ! 3) - 30
           \<le> (3 / 4) ^ n * (y (h ! 3) - 30)
       \<and> (1 / 2) ^ n * (y (h ! 3) - 30)
           \<le> y (relax n [\<lparr>p1 = 0, p2 = 1, length' = 10\<rparr>,
                          \<lparr>p1 = 1, p2 = 2, length' = 10\<rparr>,
                          \<lparr>p1 = 2, p2 = 3, length' = 10\<rparr>] h ! 3) - 30"
proof (induction n)
  case 0
  with assms show ?case by (simp add: relax_def)
next
  case (Suc n)
  let ?sts = "[\<lparr>p1 = 0, p2 = 1, length' = 10\<rparr>, \<lparr>p1 = 1, p2 = 2, length' = 10\<rparr>,
               \<lparr>p1 = 2, p2 = 3, length' = 10\<rparr>]"
  have step: "relax (Suc n) ?sts h = relax_pass ?sts (relax n ?sts h)"
    by (simp add: relax_def)
  from Suc have hn: "hanging (relax n ?sts h)"
    and bn: "y (relax n ?sts h ! 3) - 30 \<le> (3 / 4) ^ n * (y (h ! 3) - 30)"
    and ln: "(1 / 2) ^ n * (y (h ! 3) - 30) \<le> y (relax n ?sts h ! 3) - 30"
    by simp_all
  have "y (relax (Suc n) ?sts h ! 3) - 30 \<le> 3 / 4 * (y (relax n ?sts h ! 3) - 30)"
    unfolding step by (rule hanging_relax_pass(2) [OF hn])
  also have "\<dots> \<le> 3 / 4 * ((3 / 4) ^ n * (y (h ! 3) - 30))"
    using bn by simp
  finally have up: "y (relax (Suc n) ?sts h ! 3) - 30 \<le> (3 / 4) ^ Suc n * (y (h ! 3) - 30)"
    by simp
  have "(1 / 2) ^ Suc n * (y (h ! 3) - 30) = ((1 / 2) ^ n * (y (h ! 3) - 30)) / 2"
    by simp
  also have "\<dots> \<le> (y (relax n ?sts h ! 3) - 30) / 2"
    using ln by simp
  also have "\<dots> \<le> y (relax (Suc n) ?sts h ! 3) - 30"
    unfolding step by (rule hanging_relax_pass(3) [OF hn])
  finally have lo: "(1 / 2) ^ Suc n * (y (h ! 3) - 30) \<le> y (relax (Suc n) ?sts h ! 3) - 30" .
  have "hanging (relax (Suc n) ?sts h)"
    unfolding step by (rule hanging_relax_pass(1) [OF hn])
  with up lo show ?case by blast
qed

lemma hanging_distances:
  assumes "hanging h" and "y (h ! 3) - 30 \<le> e"
  shows "\<bar>stick_distance \<lparr>p1 = 0, p2 = 1, length' = 10\<rparr> h - 10\<bar> \<le> e"
    and "\<bar>stick_distance \<lparr>p1 = 1, p2 = 2, length' = 10\<rparr> h - 10\<bar> \<le> e"
    and "\<bar>stick_distance \<lparr>p1 = 2, p2 = 3, length' = 10\<rparr> h - 10\<bar> \<le> e"
  using assms by (simp_all add: hanging_def stick_distance_def)

lemma eps_small: "(3 / 4 :: real) ^ 600 / 2 \<le> 1 / 10 ^ 9"
  by (simp add: power_divide)


lemma createRope_4_10:
  "createRope 0 0 4 10 =
     \<lparr> heap = [\<lparr>x = 0, y = 0, oldx = 0, oldy = 0, pinned = True\<rparr>,
               \<lparr>x = 0, y = 10, oldx = 0, oldy = 10, pinned = False\<rparr>,
               \<lparr>x = 0, y = 20, oldx = 0, oldy = 20, pinned = False\<rparr>,
               \<lparr>x = 0, y = 30, oldx = 0, oldy = 30, pinned = False\<rparr>],
       points = [0, 1, 2, 3],
       sticks = [\<lparr>p1 = 0, p2 = 1, length' = 10\<rparr>,
                 \<lparr>p1 = 1, p2 = 2, length' = 10\<rparr>,
                 \<lparr>p1 = 2, p2 = 3, length' = 10\<rparr>],
       iterations = 600 \<rparr>"
  by (simp add: createRope_def new_point_def Let_def eval_nat_numeral)

lemma integrate_4_10:
  assumes "0 \<le> width" and "30.5 \<le> height"
  shows "integrate width height 0 [0, 1, 2, 3]
           [\<lparr>x = 0, y = 0, oldx = 0, oldy = 0, pinned = True\<rparr>,
            \<lparr>x = 0, y = 10, oldx = 0, oldy = 10, pinned = False\<rparr>,
            \<lparr>x = 0, y = 20, oldx = 0, oldy = 20, pinned = False\<rparr>,
            \<lparr>x = 0, y = 30, oldx = 0, oldy = 30, pinned = False\<rparr>]
         = [\<lparr>x = 0, y = 0, oldx = 0, oldy = 0, pinned = True\<rparr>,
            \<lparr>x = 0, y = 10.5, oldx = 0, oldy = 10, pinned = False\<rparr>,
            \<lparr>x = 0, y = 20.5, oldx = 0, oldy = 20, pinned = False\<rparr>,
            \<lparr>x = 0, y = 30.5, oldx = 0, oldy = 30, pinned = False\<rparr>]"
  using assms
  by (simp add: integrate_def update_point_def verlet_def floor_collide_def wall_collide_def
        GRAVITY_def FRICTION_def Let_def eval_nat_numeral)

lemma hanging_after_integrate:
  "hanging [\<lparr>x = 0, y = 0, oldx = 0, oldy = 0, pinned = True\<rparr>,
            \<lparr>x = 0, y = 10.5, oldx = 0, oldy = 10, pinned = False\<rparr>,
            \<lparr>x = 0, y = 20.5, oldx = 0, oldy = 20, pinned = False\<rparr>,
            \<lparr>x = 0, y = 30.5, oldx = 0, oldy = 30, pinned = False\<rparr>]"
  by (simp add: hanging_def)

lemma createRope_shape:
  "length (heap (createRope startX startY n L)) = n"
  "points (createRope startX startY n L) = [0..<n]"
  "i < n \<Longrightarrow> heap (createRope startX startY n L) ! i = new_point startX startY L i"
  "length (sticks (createRope startX startY n L)) = n - 1"
  "i < n - 1 \<Longrightarrow> sticks (createRope startX startY n L) ! i = \<lparr>p1 = i, p2 = i + 1, length' = L\<rparr>"
  "iterations (createRope startX startY n L) = 600"
  by (simp_all add: createRope_def Let_def)

lemma scenario_4_10:
  assumes "0 \<le> width" and "30.5 \<le> height"
  defines "rope \<equiv> createRope 0 0 4 10"
  defines "h1 \<equiv> integrate width height 0 (points rope) (heap rope)"
  defines "rope' \<equiv> updatePhysics rope width height 0"
  shows "h1 = [\<lparr>x = 0, y = 0, oldx = 0, oldy = 0, pinned = True\<rparr>,
               \<lparr>x = 0, y = 10.5, oldx = 0, oldy = 10, pinned = False\<rparr>,
               \<lparr>x = 0, y = 20.5, oldx = 0, oldy = 20, pinned = False\<rparr>,
               \<lparr>x = 0, y = 30.5, oldx = 0, oldy = 30, pinned = False\<rparr>]"
    and "y (h1 ! (points rope ! 3)) = y (heap rope ! (points rope ! 3)) + 0.5"
    and "heap rope' = relax (iterations rope) (sticks rope) h1"
    and "points rope' = points rope \<and> sticks rope' = sticks rope"
    and "30 < y (heap rope' ! (points rope ! 3))"
    and "y (heap rope' ! (points rope ! 3)) \<le> 30 + 1 / 10 ^ 9"
    and "\<forall>i<3. \<bar>stick_distance (sticks rope' ! i) (heap rope') - 10\<bar> \<le> 1 / 10 ^ 9"
proof -
  let ?h1 = "[\<lparr>x = 0, y = 0, oldx = 0, oldy = 0, pinned = True\<rparr>,
            \<lparr>x = 0, y = 10.5, oldx = 0, oldy = 10, pinned = False\<rparr>,
            \<lparr>x = 0, y = 20.5, oldx = 0, oldy = 20, pinned = False\<rparr>,
            \<lparr>x = 0, y = 30.5, oldx = 0, oldy = 30, pinned = False\<rparr>]"
  let ?sts = "[\<lparr>p1 = 0, p2 = 1, length' = 10\<rparr>, \<lparr>p1 = 1, p2 = 2, length' = 10\<rparr>,
               \<lparr>p1 = 2, p2 = 3, length' = 10\<rparr>]"
  show i1: "h1 = ?h1"
    unfolding h1_def rope_def createRope_4_10 using integrate_4_10 [OF assms(1,2)] by simp
  show "y (h1 ! (points rope ! 3)) = y (heap rope ! (points rope ! 3)) + 0.5"
    unfolding i1 by (simp add: rope_def createRope_4_10)
  show tie: "heap rope' = relax (iterations rope) (sticks rope) h1"
    by (simp add: rope'_def updatePhysics_def h1_def)
  show "points rope' = points rope \<and> sticks rope' = sticks rope"
    by (simp add: rope'_def updatePhysics_def)
  have up: "heap rope' = relax 600 ?sts ?h1"
    unfolding tie i1 by (simp add: rope_def createRope_4_10)
  have st: "sticks rope' = ?sts"
    by (simp add: rope'_def updatePhysics_def rope_def createRope_4_10)
  have p3: "points rope ! 3 = 3"
    by (simp add: rope_def createRope_4_10)
  from hanging_relax [OF hanging_after_integrate, of 600]
  have hg: "hanging (relax 600 ?sts ?h1)"
    and bd: "y (relax 600 ?sts ?h1 ! 3) - 30 \<le> (3 / 4) ^ 600 / 2"
    and lo: "(1 / 2) ^ 600 / 2 \<le> y (relax 600 ?sts ?h1 ! 3) - 30"
    by simp_all
  from bd eps_small have bd': "y (relax 600 ?sts ?h1 ! 3) - 30 \<le> 1 / 10 ^ 9"
    by (rule order_trans)
  have pos: "(0::real) < (1 / 2) ^ 600 / 2" by simp
  from pos lo have "0 < y (relax 600 ?sts ?h1 ! 3) - 30" by (rule less_le_trans)
  then show "30 < y (heap rope' ! (points rope ! 3))"
    unfolding up p3 by simp
  from bd' show "y (heap rope' ! (points rope ! 3)) \<le> 30 + 1 / 10 ^ 9"
    unfolding up p3 by simp
  note ds = hanging_distances [OF hg bd']
  show "\<forall>i<3. \<bar>stick_distance (sticks rope' ! i) (heap rope') - 10\<bar> \<le> 1 / 10 ^ 9"
  proof (intro allI impI)
    fix i :: nat assume "i < 3"
    then consider "i = 0" | "i = 1" | "i = 2" by linarith
    then show "\<bar>stick_distance (sticks rope' ! i) (heap rope') - 10\<bar> \<le> 1 / 10 ^ 9"
      unfolding up st using ds by cases simp_all
  qed
qed

text \<open>
  C3. \<^verbatim>\<open>createRope(startX, startY, n, L)\<close> returns \<open>n\<close> distinct points, point \<open>i\<close> at
  \<open>(startX, startY + i * L)\<close> with its previous position equal to its position, pinned
  exactly when \<open>i = 0\<close>; \<open>n - 1\<close> sticks, stick \<open>i\<close> joining points \<open>i\<close> and \<open>i + 1\<close> with
  length \<open>L\<close>; and 600 iterations. For \<^verbatim>\<open>createRope(0, 0, 4, 10)\<close> the points are at
  \<open>y = 0, 10, 20, 30\<close> and the three sticks have length 10. One call of
  \<^verbatim>\<open>updatePhysics\<close> on it, with gravity 0.5 and bounds that no point touches (width at
  least 0, height at least 30.5, radius 0), is the integration step followed by the 600
  relaxation iterations on the rope's sticks: the integration step leaves point 0 where
  it is and moves points 1, 2 and 3 down by 0.5 (point 3 from 30 to 30.5), and the store
  the call returns is the relaxation of exactly that store; in it point 3 is strictly
  below its starting height 30, by at most \<open>10^-9\<close>, and every stick is within \<open>10^-9\<close>
  of length 10.
\<close>

theorem createRope_spec:
  "(let rope = createRope startX startY n L
    in length (heap rope) = n \<and> length (points rope) = n \<and> distinct (points rope)
     \<and> (\<forall>i<n. heap rope ! (points rope ! i) =
           \<lparr>x = startX, y = startY + real i * L,
            oldx = startX, oldy = startY + real i * L, pinned = (i = 0)\<rparr>)
     \<and> length (sticks rope) = n - 1
     \<and> (\<forall>i<n - 1. sticks rope ! i =
           \<lparr>p1 = points rope ! i, p2 = points rope ! (i + 1), length' = L\<rparr>)
     \<and> iterations rope = 600)
   \<and> (let rope = createRope 0 0 4 10;
          h1 = integrate width height 0 (points rope) (heap rope);
          rope' = updatePhysics rope width height 0
      in map (\<lambda>i. heap rope ! (points rope ! i)) [0, 1, 2, 3] =
           [\<lparr>x = 0, y = 0, oldx = 0, oldy = 0, pinned = True\<rparr>,
            \<lparr>x = 0, y = 10, oldx = 0, oldy = 10, pinned = False\<rparr>,
            \<lparr>x = 0, y = 20, oldx = 0, oldy = 20, pinned = False\<rparr>,
            \<lparr>x = 0, y = 30, oldx = 0, oldy = 30, pinned = False\<rparr>]
       \<and> length (points rope) = 4
       \<and> map length' (sticks rope) = [10, 10, 10]
       \<and> GRAVITY = 0.5
       \<and> (0 \<le> width \<and> 30.5 \<le> height \<longrightarrow>
            h1 = [\<lparr>x = 0, y = 0, oldx = 0, oldy = 0, pinned = True\<rparr>,
                  \<lparr>x = 0, y = 10.5, oldx = 0, oldy = 10, pinned = False\<rparr>,
                  \<lparr>x = 0, y = 20.5, oldx = 0, oldy = 20, pinned = False\<rparr>,
                  \<lparr>x = 0, y = 30.5, oldx = 0, oldy = 30, pinned = False\<rparr>]
          \<and> y (h1 ! (points rope ! 3)) = y (heap rope ! (points rope ! 3)) + GRAVITY
          \<and> heap rope' = relax (iterations rope) (sticks rope) h1
          \<and> (points rope' = points rope \<and> sticks rope' = sticks rope)
          \<and> 30 < y (heap rope' ! (points rope ! 3))
          \<and> y (heap rope' ! (points rope ! 3)) \<le> 30 + 1 / 10 ^ 9
          \<and> (\<forall>i<3. \<bar>stick_distance (sticks rope' ! i) (heap rope') - 10\<bar> \<le> 1 / 10 ^ 9)))"
proof -
  have A: "(let rope = createRope startX startY n L
    in length (heap rope) = n \<and> length (points rope) = n \<and> distinct (points rope)
     \<and> (\<forall>i<n. heap rope ! (points rope ! i) =
           \<lparr>x = startX, y = startY + real i * L,
            oldx = startX, oldy = startY + real i * L, pinned = (i = 0)\<rparr>)
     \<and> length (sticks rope) = n - 1
     \<and> (\<forall>i<n - 1. sticks rope ! i =
           \<lparr>p1 = points rope ! i, p2 = points rope ! (i + 1), length' = L\<rparr>)
     \<and> iterations rope = 600)"
    by (simp add: Let_def createRope_shape new_point_def)
  have B: "map (\<lambda>i. heap (createRope 0 0 4 10) ! (points (createRope 0 0 4 10) ! i)) [0, 1, 2, 3] =
           [\<lparr>x = 0, y = 0, oldx = 0, oldy = 0, pinned = True\<rparr>,
            \<lparr>x = 0, y = 10, oldx = 0, oldy = 10, pinned = False\<rparr>,
            \<lparr>x = 0, y = 20, oldx = 0, oldy = 20, pinned = False\<rparr>,
            \<lparr>x = 0, y = 30, oldx = 0, oldy = 30, pinned = False\<rparr>]"
    "length (points (createRope 0 0 4 10)) = 4"
    "map length' (sticks (createRope 0 0 4 10)) = [10, 10, 10]"
    by (simp_all add: createRope_4_10)
  have G: "GRAVITY = 0.5" by (simp add: GRAVITY_def)
  have C: "0 \<le> width \<and> 30.5 \<le> height \<longrightarrow>
            integrate width height 0 (points (createRope 0 0 4 10)) (heap (createRope 0 0 4 10))
              = [\<lparr>x = 0, y = 0, oldx = 0, oldy = 0, pinned = True\<rparr>,
                 \<lparr>x = 0, y = 10.5, oldx = 0, oldy = 10, pinned = False\<rparr>,
                 \<lparr>x = 0, y = 20.5, oldx = 0, oldy = 20, pinned = False\<rparr>,
                 \<lparr>x = 0, y = 30.5, oldx = 0, oldy = 30, pinned = False\<rparr>]
          \<and> y (integrate width height 0 (points (createRope 0 0 4 10))
                 (heap (createRope 0 0 4 10)) ! (points (createRope 0 0 4 10) ! 3))
              = y (heap (createRope 0 0 4 10) ! (points (createRope 0 0 4 10) ! 3)) + GRAVITY
          \<and> heap (updatePhysics (createRope 0 0 4 10) width height 0)
              = relax (iterations (createRope 0 0 4 10)) (sticks (createRope 0 0 4 10))
                  (integrate width height 0 (points (createRope 0 0 4 10))
                     (heap (createRope 0 0 4 10)))
          \<and> (points (updatePhysics (createRope 0 0 4 10) width height 0)
                = points (createRope 0 0 4 10)
             \<and> sticks (updatePhysics (createRope 0 0 4 10) width height 0)
                = sticks (createRope 0 0 4 10))
          \<and> 30 < y (heap (updatePhysics (createRope 0 0 4 10) width height 0)
                       ! (points (createRope 0 0 4 10) ! 3))
          \<and> y (heap (updatePhysics (createRope 0 0 4 10) width height 0)
                  ! (points (createRope 0 0 4 10) ! 3)) \<le> 30 + 1 / 10 ^ 9
          \<and> (\<forall>i<3. \<bar>stick_distance
                         (sticks (updatePhysics (createRope 0 0 4 10) width height 0) ! i)
                         (heap (updatePhysics (createRope 0 0 4 10) width height 0)) - 10\<bar>
                     \<le> 1 / 10 ^ 9)"
  proof (rule impI)
    assume b: "0 \<le> width \<and> 30.5 \<le> height"
    then have b1: "0 \<le> width" and b2: "30.5 \<le> height" by blast+
    note S = scenario_4_10 [OF b1 b2]
    show "integrate width height 0 (points (createRope 0 0 4 10)) (heap (createRope 0 0 4 10))
              = [\<lparr>x = 0, y = 0, oldx = 0, oldy = 0, pinned = True\<rparr>,
                 \<lparr>x = 0, y = 10.5, oldx = 0, oldy = 10, pinned = False\<rparr>,
                 \<lparr>x = 0, y = 20.5, oldx = 0, oldy = 20, pinned = False\<rparr>,
                 \<lparr>x = 0, y = 30.5, oldx = 0, oldy = 30, pinned = False\<rparr>]
          \<and> y (integrate width height 0 (points (createRope 0 0 4 10))
                 (heap (createRope 0 0 4 10)) ! (points (createRope 0 0 4 10) ! 3))
              = y (heap (createRope 0 0 4 10) ! (points (createRope 0 0 4 10) ! 3)) + GRAVITY
          \<and> heap (updatePhysics (createRope 0 0 4 10) width height 0)
              = relax (iterations (createRope 0 0 4 10)) (sticks (createRope 0 0 4 10))
                  (integrate width height 0 (points (createRope 0 0 4 10))
                     (heap (createRope 0 0 4 10)))
          \<and> (points (updatePhysics (createRope 0 0 4 10) width height 0)
                = points (createRope 0 0 4 10)
             \<and> sticks (updatePhysics (createRope 0 0 4 10) width height 0)
                = sticks (createRope 0 0 4 10))
          \<and> 30 < y (heap (updatePhysics (createRope 0 0 4 10) width height 0)
                       ! (points (createRope 0 0 4 10) ! 3))
          \<and> y (heap (updatePhysics (createRope 0 0 4 10) width height 0)
                  ! (points (createRope 0 0 4 10) ! 3)) \<le> 30 + 1 / 10 ^ 9
          \<and> (\<forall>i<3. \<bar>stick_distance
                         (sticks (updatePhysics (createRope 0 0 4 10) width height 0) ! i)
                         (heap (updatePhysics (createRope 0 0 4 10) width height 0)) - 10\<bar>
                     \<le> 1 / 10 ^ 9)"
      unfolding G by (intro conjI S)
  qed
  show ?thesis
    unfolding Let_def by (intro conjI A [unfolded Let_def] B G C)
qed

theorem createRope_spec_witness:
  "heap (createRope 1 2 3 5) ! (points (createRope 1 2 3 5) ! 2)
     = \<lparr>x = 1, y = 12, oldx = 1, oldy = 12, pinned = False\<rparr>
   \<and> sticks (createRope 1 2 3 5) ! 1
     = \<lparr>p1 = points (createRope 1 2 3 5) ! 1, p2 = points (createRope 1 2 3 5) ! 2, length' = 5\<rparr>
   \<and> (0 :: real) \<le> 800 \<and> (30.5 :: real) \<le> 600
   \<and> heap (updatePhysics (createRope 0 0 4 10) 800 600 0)
       = relax (iterations (createRope 0 0 4 10)) (sticks (createRope 0 0 4 10))
           (integrate 800 600 0 (points (createRope 0 0 4 10)) (heap (createRope 0 0 4 10)))
   \<and> 30 < y (heap (updatePhysics (createRope 0 0 4 10) 800 600 0)
                ! (points (createRope 0 0 4 10) ! 3))
   \<and> \<bar>stick_distance (sticks (updatePhysics (createRope 0 0 4 10) 800 600 0) ! 2)
         (heap (updatePhysics (createRope 0 0 4 10) 800 600 0)) - 10\<bar> \<le> 1 / 10 ^ 9"
proof -
  note T = createRope_spec [of 1 2 3 5 800 600, unfolded Let_def]
  have a: "(2::nat) < 3" and b: "(1::nat) < 3 - 1" and c: "(0 :: real) \<le> 800 \<and> (30.5 :: real) \<le> 600"
    by simp_all
  note T1 = T [THEN conjunct1]
  note T2 = T [THEN conjunct2, THEN conjunct2, THEN conjunct2, THEN conjunct2, THEN conjunct2,
               THEN mp, OF c]
  from T1 a have "heap (createRope 1 2 3 5) ! (points (createRope 1 2 3 5) ! 2)
     = \<lparr>x = 1, y = 2 + real 2 * 5, oldx = 1, oldy = 2 + real 2 * 5, pinned = ((2::nat) = 0)\<rparr>"
    by blast
  then have p: "heap (createRope 1 2 3 5) ! (points (createRope 1 2 3 5) ! 2)
     = \<lparr>x = 1, y = 12, oldx = 1, oldy = 12, pinned = False\<rparr>"
    by simp
  from T1 b have "sticks (createRope 1 2 3 5) ! 1
     = \<lparr>p1 = points (createRope 1 2 3 5) ! 1, p2 = points (createRope 1 2 3 5) ! (1 + 1), length' = 5\<rparr>"
    by blast
  then have q: "sticks (createRope 1 2 3 5) ! 1
     = \<lparr>p1 = points (createRope 1 2 3 5) ! 1, p2 = points (createRope 1 2 3 5) ! 2, length' = 5\<rparr>"
    by (simp add: numeral_2_eq_2)
  note tie = T2 [THEN conjunct2, THEN conjunct2, THEN conjunct1]
  note low = T2 [THEN conjunct2, THEN conjunct2, THEN conjunct2, THEN conjunct2, THEN conjunct1]
  note dst = T2 [THEN conjunct2, THEN conjunct2, THEN conjunct2, THEN conjunct2, THEN conjunct2,
                 THEN conjunct2, rule_format, OF a]
  show ?thesis
    by (intro conjI p q c [THEN conjunct1] c [THEN conjunct2] tie low dst)
qed

section \<open>Collision response\<close>

lemma update_point_unpinned:
  assumes "i < length pts" and "pts ! i < length h" and "\<not> pinned (h ! (pts ! i))"
  shows "update_point width height bulbRadius pts i h ! (pts ! i) =
           (let r = (if i = length pts - 1 then bulbRadius else 0)
            in wall_collide width r (floor_collide height r (verlet (h ! (pts ! i)))))"
  using assms by (simp add: update_point_def Let_def)

text \<open>
  C6 as stated fails in two places.

  ``Clamped to the nearest wall'': on a narrow canvas, width 40 with bulb radius 30, the
  left wall is at 30 and the right wall at 10. The last point, at rest at \<open>x = 5\<close>, is
  below the left wall and is moved to 30, although the right wall is nearer.

  ``The implicit horizontal velocity is reflected and scaled by 0.5'': with width 800 and
  radius 0, a point at \<open>x = 5\<close> with previous position 20 has implicit velocity \<open>-14.85\<close>
  after its Verlet update and is at \<open>-9.85\<close>, left of the wall at 0. It is moved to 0, and
  its implicit velocity afterwards is \<open>2.5\<close>, not \<open>7.425\<close>: line 70 computes
  \<^verbatim>\<open>currentVx\<close> after line 69 has overwritten \<^verbatim>\<open>p.x\<close>, so what is reversed and halved
  is the distance from the previous position to the wall.
\<close>

theorem wall_response_counterexample:
  "x (integrate 40 100 30 [0] [\<lparr>x = 5, y = 0, oldx = 5, oldy = 0, pinned = False\<rparr>] ! 0) = 30
   \<and> \<bar>5 - (40 - 30 :: real)\<bar> < \<bar>5 - 30\<bar>
   \<and> x (verlet \<lparr>x = 5, y = 0, oldx = 20, oldy = 0, pinned = False\<rparr>)
       - oldx (verlet \<lparr>x = 5, y = 0, oldx = 20, oldy = 0, pinned = False\<rparr>) = - 14.85
   \<and> x (verlet \<lparr>x = 5, y = 0, oldx = 20, oldy = 0, pinned = False\<rparr>) < 0
   \<and> x (integrate 800 100 0 [0] [\<lparr>x = 5, y = 0, oldx = 20, oldy = 0, pinned = False\<rparr>] ! 0) = 0
   \<and> x (integrate 800 100 0 [0] [\<lparr>x = 5, y = 0, oldx = 20, oldy = 0, pinned = False\<rparr>] ! 0)
       - oldx (integrate 800 100 0 [0] [\<lparr>x = 5, y = 0, oldx = 20, oldy = 0, pinned = False\<rparr>] ! 0)
       = 2.5
   \<and> (2.5 :: real) \<noteq> - (- 14.85) * WALL_BOUNCE"
  by (simp add: integrate_def update_point_def verlet_def floor_collide_def wall_collide_def
        GRAVITY_def FRICTION_def WALL_BOUNCE_def Let_def)

text \<open>
  C6 (as amended). An unpinned point at index \<open>i\<close> is replaced by the Verlet update
  followed by the floor and the wall response, with radius \<open>bulbRadius\<close> for the last
  point and 0 for the others. If \<open>y\<close> exceeds \<open>height - r\<close> after the Verlet update,
  the floor response sets \<open>y\<close> to \<open>height - r\<close>, leaves \<open>x\<close>, multiplies the implicit
  horizontal velocity by the ground friction 0.5 and makes the implicit vertical velocity
  zero. If \<open>x < r\<close>, the wall response sets \<open>x\<close> to \<open>r\<close>; otherwise, if \<open>x > width - r\<close>,
  it sets \<open>x\<close> to \<open>width - r\<close>; this is the nearest wall whenever \<open>r \<le> width - r\<close>. The
  wall response writes \<open>x\<close> and \<open>oldx\<close> only; what velocity it leaves is not part of the
  statement.
\<close>

theorem collision_response:
  "(i < length pts \<and> pts ! i < length h \<and> \<not> pinned (h ! (pts ! i)) \<longrightarrow>
      update_point width height bulbRadius pts i h ! (pts ! i) =
        wall_collide width (if i = length pts - 1 then bulbRadius else 0)
          (floor_collide height (if i = length pts - 1 then bulbRadius else 0)
             (verlet (h ! (pts ! i)))))
   \<and> (y q > height - r \<longrightarrow>
        y (floor_collide height r q) = height - r
      \<and> x (floor_collide height r q) = x q
      \<and> x (floor_collide height r q) - oldx (floor_collide height r q)
          = (x q - oldx q) * GROUND_FRICTION
      \<and> GROUND_FRICTION = 0.5
      \<and> y (floor_collide height r q) - oldy (floor_collide height r q) = 0
      \<and> y (wall_collide width r (floor_collide height r q)) = height - r
      \<and> oldy (wall_collide width r (floor_collide height r q)) = height - r)
   \<and> (x q < r \<longrightarrow>
        x (wall_collide width r q) = r
      \<and> (r \<le> width - r \<longrightarrow> \<bar>x q - r\<bar> \<le> \<bar>x q - (width - r)\<bar>))
   \<and> (\<not> x q < r \<and> x q > width - r \<longrightarrow>
        x (wall_collide width r q) = width - r
      \<and> (r \<le> width - r \<longrightarrow> \<bar>x q - (width - r)\<bar> \<le> \<bar>x q - r\<bar>))
   \<and> (r \<le> x q \<and> x q \<le> width - r \<longrightarrow> wall_collide width r q = q)
   \<and> (y q \<le> height - r \<longrightarrow> floor_collide height r q = q)
   \<and> y (wall_collide width r q) = y q
   \<and> oldy (wall_collide width r q) = oldy q
   \<and> pinned (wall_collide width r q) = pinned q"
  by (simp add: update_point_unpinned floor_collide_def wall_collide_def Let_def
        GROUND_FRICTION_def diff_divide_distrib)

theorem collision_response_witness:
  "y (verlet \<lparr>x = 5, y = 99.8, oldx = 7, oldy = 99.5, pinned = False\<rparr>) > 130 - 30
   \<and> y (floor_collide 130 30 (verlet \<lparr>x = 5, y = 99.8, oldx = 7, oldy = 99.5, pinned = False\<rparr>))
       = 100
   \<and> x (verlet \<lparr>x = 5, y = 99.8, oldx = 7, oldy = 99.5, pinned = False\<rparr>) < 30
   \<and> x (wall_collide 800 30 (verlet \<lparr>x = 5, y = 99.8, oldx = 7, oldy = 99.5, pinned = False\<rparr>))
       = 30
   \<and> update_point 800 130 30 [0] 0 [\<lparr>x = 5, y = 99.8, oldx = 7, oldy = 99.5, pinned = False\<rparr>] ! 0
       = wall_collide 800 30 (floor_collide 130 30
           (verlet \<lparr>x = 5, y = 99.8, oldx = 7, oldy = 99.5, pinned = False\<rparr>))
   \<and> x (wall_collide 800 30 \<lparr>x = 790, y = 50, oldx = 780, oldy = 50, pinned = False\<rparr>) = 770
   \<and> wall_collide 800 30 \<lparr>x = 40, y = 50, oldx = 780, oldy = 50, pinned = False\<rparr>
       = \<lparr>x = 40, y = 50, oldx = 780, oldy = 50, pinned = False\<rparr>
   \<and> floor_collide 130 30 \<lparr>x = 40, y = 50, oldx = 780, oldy = 50, pinned = False\<rparr>
       = \<lparr>x = 40, y = 50, oldx = 780, oldy = 50, pinned = False\<rparr>"
proof -
  let ?P = "\<lparr>x = 5, y = 99.8, oldx = 7, oldy = 99.5, pinned = False\<rparr>"
  let ?R = "\<lparr>x = 790, y = 50, oldx = 780, oldy = 50, pinned = False\<rparr>"
  let ?M = "\<lparr>x = 40, y = 50, oldx = 780, oldy = 50, pinned = False\<rparr>"
  have a1: "y (verlet ?P) > 130 - 30" and a2: "x (verlet ?P) < 30"
    by (simp_all add: verlet_def GRAVITY_def FRICTION_def Let_def)
  have a3: "(0::nat) < length [0::nat] \<and> [0::nat] ! 0 < length [?P] \<and> \<not> pinned ([?P] ! ([0] ! 0))"
    by simp
  have a4: "\<not> x ?R < 30 \<and> x ?R > 800 - 30" by simp
  have a5: "30 \<le> x ?M \<and> x ?M \<le> 800 - 30" and a6: "y ?M \<le> 130 - 30" by simp_all
  note T1 = collision_response [where i = 0 and pts = "[0]" and width = 800 and height = 130
          and bulbRadius = 30 and r = 30 and h = "[?P]" and q = "verlet ?P"]
  note T2 = collision_response [where i = 0 and pts = "[0]" and width = 800 and height = 130
          and bulbRadius = 30 and r = 30 and h = "[?P]" and q = ?R]
  note T3 = collision_response [where i = 0 and pts = "[0]" and width = 800 and height = 130
          and bulbRadius = 30 and r = 30 and h = "[?P]" and q = ?M]
  from T1 a1 have b1: "y (floor_collide 130 30 (verlet ?P)) = 130 - 30" by blast
  from T1 a2 have b2: "x (wall_collide 800 30 (verlet ?P)) = 30" by blast
  from T1 a3 have b3: "update_point 800 130 30 [0] 0 [?P] ! ([0] ! 0)
       = wall_collide 800 (if (0::nat) = length [0::nat] - 1 then 30 else 0)
           (floor_collide 130 (if (0::nat) = length [0::nat] - 1 then 30 else 0)
              (verlet ([?P] ! ([0] ! 0))))"
    by blast
  from T2 a4 have b4: "x (wall_collide 800 30 ?R) = 800 - 30" by blast
  from T3 a5 have b5: "wall_collide 800 30 ?M = ?M" by blast
  from T3 a6 have b6: "floor_collide 130 30 ?M = ?M" by blast
  from b3 have b3': "update_point 800 130 30 [0] 0 [?P] ! 0
       = wall_collide 800 30 (floor_collide 130 30 (verlet ?P))" by simp
  from b1 have b1': "y (floor_collide 130 30 (verlet ?P)) = 100" by simp
  from b4 have b4': "x (wall_collide 800 30 ?R) = 770" by simp
  from a1 b1' a2 b2 b3' b4' b5 b6 show ?thesis by blast
qed

section \<open>Releasing the pointer\<close>

lemma release_point_None:
  "release_point None a h = h[a := (h ! a)\<lparr>pinned := False\<rparr>]"
  by (simp add: release_point_def)

lemma release_point_Some:
  "release_point (Some (sx, sy)) a h =
     (if hypot (x (h ! a) - sx) (y (h ! a) - sy) < secure_threshold then
        h[a := (h ! a)\<lparr>pinned := True, x := sx, y := sy\<rparr>]
      else h[a := (h ! a)\<lparr>pinned := False\<rparr>])"
  by (cases "a < length h") (simp_all add: release_point_def Let_def not_less list_update_beyond)

lemma release_point_length [simp]: "length (release_point m a h) = length h"
  by (cases m) (auto simp: release_point_None release_point_Some)

lemma release_point_other: "b \<noteq> a \<Longrightarrow> release_point m a h ! b = h ! b"
  by (cases m) (auto simp: release_point_None release_point_Some)

lemma handlePointerUp_dragging:
  assumes "isDragging sc" and "pointIndex sc \<noteq> None" and "ropeRef sc = Some rope"
      and "points rope \<noteq> []"
  shows "handlePointerUp sc =
           Inr (sc\<lparr>ropeRef := Some (rope\<lparr>heap :=
                      release_point (mountRef sc) (points rope ! (length (points rope) - 1))
                        (heap rope)\<rparr>),
                   isDragging := False, pointIndex := None\<rparr>)"
  using assms by (simp add: handlePointerUp_def Let_def)

lemma handlePointerUp_idle:
  "handlePointerUp sc = Inr sc' \<Longrightarrow> \<not> isDragging sc' \<and> pointIndex sc' = None"
  by (auto simp: handlePointerUp_def Let_def split: option.splits if_splits)

text \<open>
  C9. Pointer-up while dragging: when a mount is set and the end point is less than 40
  units from it (the securing threshold, which is greater than the snag threshold 25), the
  end point is pinned and its position becomes the mount's; otherwise (farther away, or no
  mount) its pinned flag becomes false. Either way the scene is idle afterwards.
\<close>

theorem handlePointerUp_release:
  assumes "isDragging sc" and "pointIndex sc \<noteq> None" and "ropeRef sc = Some rope"
      and "points rope \<noteq> []"
      and "points rope ! (length (points rope) - 1) < length (heap rope)"
  shows "let lastPt = points rope ! (length (points rope) - 1);
             h = heap rope;
             h' = release_point (mountRef sc) lastPt h
         in handlePointerUp sc =
              Inr (sc\<lparr>ropeRef := Some (rope\<lparr>heap := h'\<rparr>),
                      isDragging := False, pointIndex := None\<rparr>)
          \<and> (\<forall>snagX snagY. mountRef sc = Some (snagX, snagY) \<and>
                 hypot (x (h ! lastPt) - snagX) (y (h ! lastPt) - snagY) < secure_threshold \<longrightarrow>
                 pinned (h' ! lastPt) \<and> x (h' ! lastPt) = snagX \<and> y (h' ! lastPt) = snagY)
          \<and> (\<forall>snagX snagY. mountRef sc = Some (snagX, snagY) \<and>
                 \<not> hypot (x (h ! lastPt) - snagX) (y (h ! lastPt) - snagY) < secure_threshold \<longrightarrow>
                 h' ! lastPt = (h ! lastPt)\<lparr>pinned := False\<rparr>)
          \<and> (mountRef sc = None \<longrightarrow> h' ! lastPt = (h ! lastPt)\<lparr>pinned := False\<rparr>)
          \<and> secure_threshold = 40 \<and> snag_threshold = 25 \<and> snag_threshold < secure_threshold"
  using assms
  by (auto simp: Let_def handlePointerUp_dragging release_point_None release_point_Some
        secure_threshold_def snag_threshold_def)

lemma snag_point_snagged:
  assumes "\<not> pinned (h ! a)" and "a < length h"
      and "hypot (x (h ! a) - snagX) (y (h ! a) - snagY) < snag_threshold"
  shows "snag_point snagX snagY a h ! a =
           \<lparr>x = snagX, y = snagY, oldx = snagX, oldy = snagY, pinned = True\<rparr>"
  using assms by (simp add: snag_point_def Let_def)

text \<open>
  C10. A secured release writes \<open>pinned\<close>, \<open>x\<close> and \<open>y\<close> of the end point and nothing
  else: its \<open>oldx\<close> and \<open>oldy\<close> keep their values, so its implicit velocity becomes the
  mount position minus the old previous position instead of zero (a snag, in contrast,
  writes the previous position too), and every other object of the store, hence every
  other point of the rope, is as before.
\<close>

theorem handlePointerUp_secured_frame:
  assumes "isDragging sc" and "pointIndex sc \<noteq> None" and "ropeRef sc = Some rope"
      and "points rope \<noteq> []"
      and "points rope ! (length (points rope) - 1) < length (heap rope)"
      and "mountRef sc = Some (snagX, snagY)"
      and "hypot (x (heap rope ! (points rope ! (length (points rope) - 1))) - snagX)
                 (y (heap rope ! (points rope ! (length (points rope) - 1))) - snagY)
             < secure_threshold"
  shows "let lastPt = points rope ! (length (points rope) - 1);
             h = heap rope;
             h' = release_point (mountRef sc) lastPt h
         in handlePointerUp sc =
              Inr (sc\<lparr>ropeRef := Some (rope\<lparr>heap := h'\<rparr>),
                      isDragging := False, pointIndex := None\<rparr>)
          \<and> h' ! lastPt = (h ! lastPt)\<lparr>pinned := True, x := snagX, y := snagY\<rparr>
          \<and> oldx (h' ! lastPt) = oldx (h ! lastPt)
          \<and> oldy (h' ! lastPt) = oldy (h ! lastPt)
          \<and> x (h' ! lastPt) - oldx (h' ! lastPt) = snagX - oldx (h ! lastPt)
          \<and> y (h' ! lastPt) - oldy (h' ! lastPt) = snagY - oldy (h ! lastPt)
          \<and> length h' = length h
          \<and> (\<forall>a. a \<noteq> lastPt \<longrightarrow> h' ! a = h ! a)
          \<and> (distinct (points rope) \<longrightarrow>
               (\<forall>j < length (points rope) - 1. h' ! (points rope ! j) = h ! (points rope ! j)))
          \<and> (\<forall>a. \<not> pinned (h ! a) \<and> a < length h \<and>
                  hypot (x (h ! a) - snagX) (y (h ! a) - snagY) < snag_threshold \<longrightarrow>
                  oldx (snag_point snagX snagY a h ! a) = snagX \<and>
                  oldy (snag_point snagX snagY a h ! a) = snagY)"
proof -
  let ?last = "points rope ! (length (points rope) - 1)"
  have d: "release_point (mountRef sc) ?last (heap rope) ! (points rope ! j)
             = heap rope ! (points rope ! j)"
    if "distinct (points rope)" and "j < length (points rope) - 1" for j
  proof -
    from that have "points rope ! j \<noteq> ?last"
      by (simp add: nth_eq_iff_index_eq)
    then show ?thesis by (rule release_point_other)
  qed
  have e: "\<forall>a. a \<noteq> ?last \<longrightarrow> release_point (mountRef sc) ?last (heap rope) ! a = heap rope ! a"
    by (simp add: release_point_other)
  have f: "release_point (mountRef sc) ?last (heap rope) ! ?last
             = (heap rope ! ?last)\<lparr>pinned := True, x := snagX, y := snagY\<rparr>"
    using assms(5,6,7) by (simp add: release_point_Some)
  have g: "handlePointerUp sc =
              Inr (sc\<lparr>ropeRef := Some (rope\<lparr>heap := release_point (mountRef sc) ?last (heap rope)\<rparr>),
                      isDragging := False, pointIndex := None\<rparr>)"
    using assms(1-4) by (rule handlePointerUp_dragging)
  have l: "length (release_point (mountRef sc) ?last (heap rope)) = length (heap rope)"
    by simp
  show ?thesis
    unfolding Let_def f
    using d e g l by (intro conjI allI impI) (simp_all add: f snag_point_snagged)
qed


lemma example_scene_facts:
  "isDragging example_scene" "pointIndex example_scene \<noteq> None" "ropeRef example_scene = Some example_rope"
  "points example_rope \<noteq> []"
  "points example_rope ! (length (points example_rope) - 1) < length (heap example_rope)"
  "mountRef example_scene = Some (3, 6)"
  "points example_rope ! (length (points example_rope) - 1) = 1"
  "heap example_rope ! 1 = \<lparr>x = 3, y = 4, oldx = 1, oldy = 2, pinned = True\<rparr>"
  "hypot (x (heap example_rope ! (points example_rope ! (length (points example_rope) - 1))) - 3)
         (y (heap example_rope ! (points example_rope ! (length (points example_rope) - 1))) - 6)
     < secure_threshold"
  by (simp_all add: example_scene_def example_rope_def hypot_def secure_threshold_def)

theorem handlePointerUp_release_witness:
  "isDragging example_scene \<and> pointIndex example_scene \<noteq> None \<and> ropeRef example_scene = Some example_rope
   \<and> points example_rope \<noteq> []
   \<and> points example_rope ! (length (points example_rope) - 1) < length (heap example_rope)
   \<and> mountRef example_scene = Some (3, 6)
   \<and> hypot (x (heap example_rope ! 1) - 3) (y (heap example_rope ! 1) - 6) < secure_threshold
   \<and> handlePointerUp example_scene =
        Inr (example_scene\<lparr>ropeRef := Some (example_rope\<lparr>heap :=
               release_point (mountRef example_scene) 1 (heap example_rope)\<rparr>),
             isDragging := False, pointIndex := None\<rparr>)
   \<and> pinned (release_point (mountRef example_scene) 1 (heap example_rope) ! 1)
   \<and> x (release_point (mountRef example_scene) 1 (heap example_rope) ! 1) = 3
   \<and> y (release_point (mountRef example_scene) 1 (heap example_rope) ! 1) = 6"
proof -
  note T = handlePointerUp_release [OF example_scene_facts(1-5), unfolded Let_def example_scene_facts(7)]
  have d: "hypot (x (heap example_rope ! 1) - 3) (y (heap example_rope ! 1) - 6) < secure_threshold"
    using example_scene_facts(9) by (simp only: example_scene_facts(7))
  from T example_scene_facts(6) d
  have "pinned (release_point (mountRef example_scene) 1 (heap example_rope) ! 1)
      \<and> x (release_point (mountRef example_scene) 1 (heap example_rope) ! 1) = 3
      \<and> y (release_point (mountRef example_scene) 1 (heap example_rope) ! 1) = 6"
    by blast
  with T example_scene_facts(1-6) d show ?thesis by blast
qed

theorem handlePointerUp_secured_frame_witness:
  "isDragging example_scene \<and> pointIndex example_scene \<noteq> None \<and> ropeRef example_scene = Some example_rope
   \<and> points example_rope \<noteq> []
   \<and> points example_rope ! (length (points example_rope) - 1) < length (heap example_rope)
   \<and> mountRef example_scene = Some (3, 6)
   \<and> hypot (x (heap example_rope ! 1) - 3) (y (heap example_rope ! 1) - 6) < secure_threshold
   \<and> distinct (points example_rope) \<and> 0 < length (points example_rope) - 1
   \<and> release_point (mountRef example_scene) 1 (heap example_rope) ! 1
       = \<lparr>x = 3, y = 6, oldx = 1, oldy = 2, pinned = True\<rparr>
   \<and> x (release_point (mountRef example_scene) 1 (heap example_rope) ! 1)
       - oldx (release_point (mountRef example_scene) 1 (heap example_rope) ! 1) = 2
   \<and> release_point (mountRef example_scene) 1 (heap example_rope) ! 0 = heap example_rope ! 0"
proof -
  note T = handlePointerUp_secured_frame
             [OF example_scene_facts(1-6) example_scene_facts(9), unfolded Let_def example_scene_facts(7)]
  have d: "hypot (x (heap example_rope ! 1) - 3) (y (heap example_rope ! 1) - 6) < secure_threshold"
    using example_scene_facts(9) by (simp only: example_scene_facts(7))
  have e: "distinct (points example_rope)" "0 < length (points example_rope) - 1"
    "points example_rope ! 0 = 0"
    by (simp_all add: example_rope_def)
  from T have "release_point (mountRef example_scene) 1 (heap example_rope) ! 1
       = (heap example_rope ! 1)\<lparr>pinned := True, x := 3, y := 6\<rparr>" by blast
  then have a: "release_point (mountRef example_scene) 1 (heap example_rope) ! 1
       = \<lparr>x = 3, y = 6, oldx = 1, oldy = 2, pinned = True\<rparr>"
    unfolding example_scene_facts(8) by simp
  from T have "x (release_point (mountRef example_scene) 1 (heap example_rope) ! 1)
       - oldx (release_point (mountRef example_scene) 1 (heap example_rope) ! 1)
       = 3 - oldx (heap example_rope ! 1)" by blast
  then have b: "x (release_point (mountRef example_scene) 1 (heap example_rope) ! 1)
       - oldx (release_point (mountRef example_scene) 1 (heap example_rope) ! 1) = 2"
    unfolding example_scene_facts(8) by simp
  from T e(1,2) have "release_point (mountRef example_scene) 1 (heap example_rope) ! (points example_rope ! 0)
     = heap example_rope ! (points example_rope ! 0)" by blast
  then have c: "release_point (mountRef example_scene) 1 (heap example_rope) ! 0 = heap example_rope ! 0"
    by (simp only: e(3))
  from example_scene_facts(1-6) d e(1,2) a b c show ?thesis by blast
qed

section \<open>What each operation leaves alone\<close>

lemma same_structure_refl [simp]: "same_structure rope rope"
  by (simp add: same_structure_def)

lemma same_structure_trans:
  "same_structure r1 r2 \<Longrightarrow> same_structure r2 r3 \<Longrightarrow> same_structure r1 r3"
  by (simp add: same_structure_def)

lemma same_structure_heap:
  "length h = length (heap rope) \<Longrightarrow> same_structure rope (rope\<lparr>heap := h\<rparr>)"
  by (simp add: same_structure_def)

lemma fold_length:
  assumes "\<And>e h. length (f e h) = length h"
  shows "length (fold f es h) = length h"
  by (induction es arbitrary: h) (simp_all add: assms)

lemma fold_pinned_mono:
  assumes "\<And>e h. pinned (h ! a) \<Longrightarrow> pinned (f e h ! a)" and "pinned (h ! a)"
  shows "pinned (fold f es h ! a)"
  using assms(2) by (induction es arbitrary: h) (simp_all add: assms(1))

subsection \<open>The physics step\<close>

lemma update_point_length [simp]:
  "length (update_point width height bulbRadius pts i h) = length h"
  by (simp add: update_point_def Let_def)

lemma integrate_length [simp]: "length (integrate width height bulbRadius pts h) = length h"
  by (simp add: integrate_def fold_length)

lemma relax_pass_length [simp]: "length (relax_pass sts h) = length h"
  by (simp add: relax_pass_def fold_length)

lemma relax_length [simp]: "length (relax n sts h) = length h"
  by (induction n) (simp_all add: relax_def)

lemma updatePhysics_same_structure:
  "same_structure rope (updatePhysics rope width height bulbRadius)"
  by (simp add: updatePhysics_def same_structure_def)

lemma updatePhysics_pinned_mono:
  "pinned (heap rope ! a) \<Longrightarrow> pinned (heap (updatePhysics rope width height bulbRadius) ! a)"
  by (simp add: updatePhysics_pinned_lemma)

subsection \<open>Snagging\<close>

lemma snag_point_length [simp]: "length (snag_point snagX snagY a h) = length h"
  by (simp add: snag_point_def Let_def)

lemma snag_point_pinned_unchanged:
  assumes "pinned (h ! b)"
  shows "snag_point snagX snagY a h ! b = h ! b"
proof (cases "b = a")
  case True
  with assms show ?thesis by (simp add: snag_point_def)
next
  case False
  then show ?thesis by (simp add: snag_point_def Let_def)
qed

lemma snag_point_other: "b \<noteq> a \<Longrightarrow> snag_point snagX snagY a h ! b = h ! b"
  by (simp add: snag_point_def Let_def)

lemma snag_same_structure: "same_structure rope (snag mount rope)"
  by (simp add: snag_def Let_def same_structure_def fold_length)

lemma snag_pinned_unchanged:
  "pinned (heap rope ! a) \<Longrightarrow> heap (snag mount rope) ! a = heap rope ! a"
  by (simp add: snag_def Let_def fold_unchanged [where P = pinned] snag_point_pinned_unchanged)

subsection \<open>Winching\<close>

lemma winch_point_length [simp]:
  "length (winch_point pts anchor dx dy n anchorIndex dragIndex i h) = length h"
  by (simp add: winch_point_def Let_def)

lemma winch_point_pinned_mono:
  assumes "pinned (h ! b)"
  shows "pinned (winch_point pts anchor dx dy n anchorIndex dragIndex i h ! b)"
proof (cases "b = pts ! (anchorIndex + i)")
  case True
  show ?thesis
  proof (cases "b < length h")
    case True
    with \<open>b = pts ! (anchorIndex + i)\<close> assms show ?thesis
      by (simp add: winch_point_def Let_def)
  next
    case False
    with \<open>b = pts ! (anchorIndex + i)\<close> assms show ?thesis
      by (simp add: winch_point_def Let_def list_update_beyond not_less)
  qed
next
  case False
  with assms show ?thesis by (simp add: winch_point_def Let_def)
qed

lemma set_stick_length_p1 [simp]: "map p1 (set_stick_length l i sts) = map p1 sts"
  by (cases "i < length sts")
     (simp_all add: set_stick_length_def map_update list_update_same_conv not_less
        list_update_beyond)

lemma set_stick_length_p2 [simp]: "map p2 (set_stick_length l i sts) = map p2 sts"
  by (cases "i < length sts")
     (simp_all add: set_stick_length_def map_update list_update_same_conv not_less
        list_update_beyond)

lemma fold_set_stick_length_p1 [simp]:
  "map p1 (fold (set_stick_length l) is sts) = map p1 sts"
  by (induction "is" arbitrary: sts) simp_all

lemma fold_set_stick_length_p2 [simp]:
  "map p2 (fold (set_stick_length l) is sts) = map p2 sts"
  by (induction "is" arbitrary: sts) simp_all

lemma winch_same_structure:
  "winch mouse dragIndex rope = Inr rope' \<Longrightarrow> same_structure rope rope'"
  by (auto simp: winch_def Let_def same_structure_def fold_length split: if_splits)

lemma winch_pinned_mono:
  "winch mouse dragIndex rope = Inr rope' \<Longrightarrow> pinned (heap rope ! a)
     \<Longrightarrow> pinned (heap rope' ! a)"
  by (auto simp: winch_def Let_def fold_pinned_mono winch_point_pinned_mono split: if_splits)

lemma winch_ok: "points rope \<noteq> [] \<Longrightarrow> \<exists>rope'. winch mouse dragIndex rope = Inr rope'"
  by (simp add: winch_def Let_def)

subsection \<open>Frames, handlers and steps\<close>

lemma snag_phase_frame:
  assumes "ropeRef sc = Some rope"
  shows "\<exists>rope'. ropeRef (snag_phase sc) = Some rope' \<and> same_structure rope rope'
           \<and> (\<forall>a. pinned (heap rope ! a) \<longrightarrow> pinned (heap rope' ! a))
           \<and> isDragging (snag_phase sc) = isDragging sc
           \<and> pointIndex (snag_phase sc) = pointIndex sc"
  using assms
  by (auto simp: snag_phase_def snag_same_structure snag_pinned_unchanged split: option.splits)

lemma winch_phase_frame:
  assumes "ropeRef sc = Some rope" and "winch_phase sc = Inr sc'"
  shows "\<exists>rope'. ropeRef sc' = Some rope' \<and> same_structure rope rope'
           \<and> (\<forall>a. pinned (heap rope ! a) \<longrightarrow> pinned (heap rope' ! a))
           \<and> isDragging sc' = isDragging sc
           \<and> pointIndex sc' = pointIndex sc"
  using assms
  by (auto simp: winch_phase_def winch_same_structure winch_pinned_mono
           split: option.splits if_splits sum.splits)

lemma physics_phase_frame:
  assumes "ropeRef sc = Some rope"
  shows "\<exists>rope'. ropeRef (physics_phase width height r sc) = Some rope' \<and> same_structure rope rope'
           \<and> (\<forall>a. pinned (heap rope ! a) \<longrightarrow> pinned (heap rope' ! a))
           \<and> isDragging (physics_phase width height r sc) = isDragging sc
           \<and> pointIndex (physics_phase width height r sc) = pointIndex sc"
  using assms
  by (simp add: physics_phase_def updatePhysics_same_structure updatePhysics_pinned_mono)

lemma render_frame:
  assumes "ropeRef sc = Some rope" and "render width height sc = Inr sc'"
  shows "\<exists>rope'. ropeRef sc' = Some rope' \<and> same_structure rope rope'
           \<and> (\<forall>a. pinned (heap rope ! a) \<longrightarrow> pinned (heap rope' ! a))
           \<and> isDragging sc' = isDragging sc
           \<and> pointIndex sc' = pointIndex sc"
proof -
  from snag_phase_frame [OF assms(1)] obtain rope1 where
    s1: "ropeRef (snag_phase sc) = Some rope1" "same_structure rope rope1"
        "\<forall>a. pinned (heap rope ! a) \<longrightarrow> pinned (heap rope1 ! a)"
        "isDragging (snag_phase sc) = isDragging sc" "pointIndex (snag_phase sc) = pointIndex sc"
    by blast
  from assms obtain sc2 where w: "winch_phase (snag_phase sc) = Inr sc2"
    and r: "sc' = physics_phase width height BULB_RADIUS sc2"
    by (auto simp: render_def Let_def split: sum.splits option.splits if_splits)
  from winch_phase_frame [OF s1(1) w] obtain rope2 where
    s2: "ropeRef sc2 = Some rope2" "same_structure rope1 rope2"
        "\<forall>a. pinned (heap rope1 ! a) \<longrightarrow> pinned (heap rope2 ! a)"
        "isDragging sc2 = isDragging (snag_phase sc)" "pointIndex sc2 = pointIndex (snag_phase sc)"
    by blast
  from physics_phase_frame [OF s2(1), of width height BULB_RADIUS] obtain rope3 where
    s3: "ropeRef sc' = Some rope3" "same_structure rope2 rope3"
        "\<forall>a. pinned (heap rope2 ! a) \<longrightarrow> pinned (heap rope3 ! a)"
        "isDragging sc' = isDragging sc2" "pointIndex sc' = pointIndex sc2"
    unfolding r by blast
  have "same_structure rope rope3"
    using s1(2) s2(2) s3(2) by (blast intro: same_structure_trans)
  with s1 s2 s3 show ?thesis by simp
qed

lemma handlePointerDown_frame:
  assumes "ropeRef sc = Some rope" and "handlePointerDown px py isHammerMode sc = Inr sc'"
  shows "\<exists>rope'. ropeRef sc' = Some rope' \<and> same_structure rope rope'
           \<and> (\<forall>a. pinned (heap rope ! a) \<longrightarrow> pinned (heap rope' ! a))"
proof -
  have m: "pinned (h[e := (h ! e)\<lparr>pinned := True\<rparr>] ! a)" if "pinned (h ! a)" for h :: store and e a
    using that by (cases "a = e"; cases "e < length h") (simp_all add: list_update_beyond not_less)
  show ?thesis
    using assms
    by (auto simp: handlePointerDown_def Let_def same_structure_def m split: if_splits)
qed

lemma handlePointerUp_frame:
  assumes "ropeRef sc = Some rope" and "handlePointerUp sc = Inr sc'"
  shows "\<exists>rope'. ropeRef sc' = Some rope' \<and> same_structure rope rope'"
  using assms
  by (auto simp: handlePointerUp_def Let_def same_structure_def split: if_splits option.splits)

lemma swing_impulse_frame:
  "same_structure rope (swing_impulse rope)
   \<and> (\<forall>a. pinned (heap rope ! a) \<longrightarrow> pinned (heap (swing_impulse rope) ! a))"
proof -
  have m: "pinned (h[e := (h ! e)\<lparr>oldx := v\<rparr>] ! a)" if "pinned (h ! a)" for h :: store and e a v
    using that by (cases "a = e"; cases "e < length h") (simp_all add: list_update_beyond not_less)
  show ?thesis
    by (simp add: swing_impulse_def Let_def same_structure_def m)
qed

lemma step_same_structure:
  assumes "ropeRef sc = Some rope" and "step ev sc = Inr sc'"
  shows "\<exists>rope'. ropeRef sc' = Some rope' \<and> same_structure rope rope'"
proof (cases ev)
  case (Render width height)
  with assms render_frame [of sc rope width height sc'] show ?thesis by auto
next
  case Snag
  with assms snag_phase_frame [of sc rope] show ?thesis by auto
next
  case Winch
  with assms winch_phase_frame [of sc rope sc'] show ?thesis by auto
next
  case (Physics width height r)
  with assms physics_phase_frame [of sc rope width height r] show ?thesis by auto
next
  case (PointerDown px py hm)
  with assms handlePointerDown_frame [of sc rope px py hm sc'] show ?thesis by auto
next
  case (PointerMove px py)
  with assms show ?thesis by (auto simp: handlePointerMove_def)
next
  case PointerUp
  with assms handlePointerUp_frame [of sc rope sc'] show ?thesis by auto
next
  case Impulse
  with assms swing_impulse_frame [of rope] show ?thesis by auto
qed

lemma reachable_same_structure:
  assumes "reachable sc0 sc" and "ropeRef sc0 = Some rope0"
  shows "\<exists>rope. ropeRef sc = Some rope \<and> same_structure rope0 rope"
  using assms
proof (induction rule: reachable.induct)
  case (start sc0)
  then show ?case by simp
next
  case (after sc0 sc ev sc')
  then obtain rope where r: "ropeRef sc = Some rope" "same_structure rope0 rope" by blast
  from step_same_structure [OF r(1) after.hyps(2)] obtain rope' where
    "ropeRef sc' = Some rope'" "same_structure rope rope'" by blast
  with r(2) show ?case by (blast intro: same_structure_trans)
qed

section \<open>The structure of the rope never changes\<close>

text \<open>
  C8. For a rope built by \<^verbatim>\<open>createRope\<close> with at least one segment, in every scene
  reachable by any sequence of operations (whole frames, physics steps, winch, snag,
  pointer-down, pointer-move, pointer-up, the initial impulse): there are as many point
  objects and the \<^verbatim>\<open>points\<close> array is the one \<^verbatim>\<open>createRope\<close> built;
  \<open>sticks.length = points.length - 1\<close>; stick \<open>i\<close> refers to the objects \<open>points[i]\<close> and
  \<open>points[i + 1]\<close>; and every further operation keeps the \<^verbatim>\<open>points\<close> array, the number
  of objects and the endpoints of every stick (at most stick lengths change).
\<close>

theorem structure_invariant:
  assumes "1 \<le> n" and "reachable (initial_scene (createRope startX startY n L)) sc"
  shows "\<exists>rope. ropeRef sc = Some rope
           \<and> same_structure (createRope startX startY n L) rope
           \<and> length (points rope) = n \<and> length (heap rope) = n \<and> distinct (points rope)
           \<and> int (length (sticks rope)) = int (length (points rope)) - 1
           \<and> (\<forall>i < length (sticks rope).
                 p1 (sticks rope ! i) = points rope ! i \<and>
                 p2 (sticks rope ! i) = points rope ! (i + 1))
           \<and> (\<forall>ev sc'. step ev sc = Inr sc' \<longrightarrow>
                 (\<exists>rope'. ropeRef sc' = Some rope' \<and> same_structure rope rope'))"
proof -
  let ?rope0 = "createRope startX startY n L"
  have "ropeRef (initial_scene ?rope0) = Some ?rope0" by (simp add: initial_scene_def)
  from reachable_same_structure [OF assms(2) this] obtain rope where
    r: "ropeRef sc = Some rope" and s: "same_structure ?rope0 rope" by blast
  have pts: "points rope = [0..<n]" and hp: "length (heap rope) = n"
    using s by (simp_all add: same_structure_def createRope_shape)
  have m1: "map p1 (sticks rope) = map p1 (sticks ?rope0)"
    and m2: "map p2 (sticks rope) = map p2 (sticks ?rope0)"
    using s by (simp_all add: same_structure_def)
  have len: "length (sticks rope) = n - 1"
    using arg_cong [OF m1, of length] by (simp add: createRope_shape)
  have ends: "p1 (sticks rope ! i) = points rope ! i \<and> p2 (sticks rope ! i) = points rope ! (i + 1)"
    if "i < length (sticks rope)" for i
  proof -
    from that len have i: "i < n - 1" by simp
    have "p1 (sticks rope ! i) = map p1 (sticks rope) ! i" using that by simp
    also have "\<dots> = p1 (sticks ?rope0 ! i)" unfolding m1 using i by (simp add: createRope_shape)
    finally have a: "p1 (sticks rope ! i) = i" using i by (simp add: createRope_shape)
    have "p2 (sticks rope ! i) = map p2 (sticks rope) ! i" using that by simp
    also have "\<dots> = p2 (sticks ?rope0 ! i)" unfolding m2 using i by (simp add: createRope_shape)
    finally have b: "p2 (sticks rope ! i) = i + 1" using i by (simp add: createRope_shape)
    from a b i show ?thesis by (simp add: pts)
  qed
  have st: "\<forall>ev sc'. step ev sc = Inr sc' \<longrightarrow>
                 (\<exists>rope'. ropeRef sc' = Some rope' \<and> same_structure rope rope')"
    using step_same_structure [OF r] by blast
  from assms(1) have "int (length (sticks rope)) = int (length (points rope)) - 1"
    by (simp add: len pts)
  with r s pts hp ends st show ?thesis by auto
qed

theorem structure_invariant_witness:
  "(1::nat) \<le> 2
   \<and> reachable (initial_scene (createRope 0 0 2 10))
        (handlePointerMove 5 5 (initial_scene (createRope 0 0 2 10)))
   \<and> (\<exists>rope. ropeRef (handlePointerMove 5 5 (initial_scene (createRope 0 0 2 10))) = Some rope
           \<and> same_structure (createRope 0 0 2 10) rope
           \<and> length (points rope) = 2 \<and> length (heap rope) = 2 \<and> distinct (points rope)
           \<and> length (sticks rope) = 1
           \<and> p1 (sticks rope ! 0) = points rope ! 0
           \<and> p2 (sticks rope ! 0) = points rope ! 1)"
proof -
  have a: "(1::nat) \<le> 2" by simp
  have "step (PointerMove 5 5) (initial_scene (createRope 0 0 2 10))
          = Inr (handlePointerMove 5 5 (initial_scene (createRope 0 0 2 10)))"
    by simp
  from reachable.after [OF reachable.start this]
  have b: "reachable (initial_scene (createRope 0 0 2 10))
        (handlePointerMove 5 5 (initial_scene (createRope 0 0 2 10)))" .
  from structure_invariant [OF a b] obtain rope where
    r: "ropeRef (handlePointerMove 5 5 (initial_scene (createRope 0 0 2 10))) = Some rope"
       "same_structure (createRope 0 0 2 10) rope"
       "length (points rope) = 2" "length (heap rope) = 2" "distinct (points rope)"
    and l: "int (length (sticks rope)) = int (length (points rope)) - 1"
    and e: "\<forall>i < length (sticks rope).
                 p1 (sticks rope ! i) = points rope ! i \<and>
                 p2 (sticks rope ! i) = points rope ! (i + 1)"
    by blast
  from l r(3) have l1: "length (sticks rope) = 1" by simp
  with e have "p1 (sticks rope ! 0) = points rope ! 0 \<and> p2 (sticks rope ! 0) = points rope ! 1"
    by simp
  with a b r l1 show ?thesis by blast
qed

section \<open>While dragging, the end point is pinned\<close>

lemma scene_ok_frame:
  assumes ok: "scene_ok sc" and r: "ropeRef sc = Some rope"
      and r': "ropeRef sc' = Some rope'" and s: "same_structure rope rope'"
      and m: "\<forall>a. pinned (heap rope ! a) \<longrightarrow> pinned (heap rope' ! a)"
      and d: "isDragging sc' = isDragging sc" "pointIndex sc' = pointIndex sc"
  shows "scene_ok sc'"
  using assms by (auto simp: scene_ok_def same_structure_def)

lemma step_scene_ok:
  assumes ok: "scene_ok sc" and st: "step ev sc = Inr sc'"
  shows "scene_ok sc'"
proof -
  from ok obtain rope where r: "ropeRef sc = Some rope" by (auto simp: scene_ok_def)
  show ?thesis
  proof (cases ev)
    case (Render width height)
    with st render_frame [OF r, of width height sc'] scene_ok_frame [OF ok r] show ?thesis
      by auto
  next
    case Snag
    with st snag_phase_frame [OF r] scene_ok_frame [OF ok r] show ?thesis by auto
  next
    case Winch
    with st winch_phase_frame [OF r, of sc'] scene_ok_frame [OF ok r] show ?thesis by auto
  next
    case (Physics width height rad)
    with st physics_phase_frame [OF r, of width height rad] scene_ok_frame [OF ok r]
    show ?thesis by auto
  next
    case (PointerDown px py hm)
    with st have h: "handlePointerDown px py hm sc = Inr sc'" by simp
    show ?thesis
    proof (cases hm)
      case True
      with h r ok show ?thesis by (auto simp: handlePointerDown_def scene_ok_def)
    next
      case False
      with h r have ne: "points rope \<noteq> []"
        by (auto simp: handlePointerDown_def Let_def split: if_splits)
      let ?e = "points rope ! (length (points rope) - 1)"
      from ne have "?e \<in> set (points rope)" by simp
      with ok r have e: "?e < length (heap rope)" by (auto simp: scene_ok_def)
      from h r False ne consider
        (grab) "sc' = sc\<lparr>mouseRef := (px, py), isDragging := True,
                   pointIndex := Some (length (points rope) - 1),
                   ropeRef := Some (rope\<lparr>heap := (heap rope)[?e := (heap rope ! ?e)\<lparr>pinned := True\<rparr>]\<rparr>)\<rparr>"
        | (miss) "sc' = sc\<lparr>mouseRef := (px, py)\<rparr>"
        by (auto simp: handlePointerDown_def Let_def split: if_splits)
      then show ?thesis
      proof cases
        case grab
        with ok r ne e show ?thesis by (auto simp: scene_ok_def)
      next
        case miss
        with ok show ?thesis by (auto simp: scene_ok_def)
      qed
    qed
  next
    case (PointerMove px py)
    with st ok show ?thesis by (auto simp: handlePointerMove_def scene_ok_def)
  next
    case PointerUp
    with st have h: "handlePointerUp sc = Inr sc'" by simp
    from handlePointerUp_frame [OF r h] obtain rope' where
      "ropeRef sc' = Some rope'" "same_structure rope rope'" by blast
    with handlePointerUp_idle [OF h] ok r show ?thesis
      by (auto simp: scene_ok_def same_structure_def)
  next
    case Impulse
    with st r have "sc' = sc\<lparr>ropeRef := Some (swing_impulse rope)\<rparr>" by auto
    with swing_impulse_frame [of rope] scene_ok_frame [OF ok r, of sc' "swing_impulse rope"]
    show ?thesis by auto
  qed
qed

lemma reachable_scene_ok:
  assumes "reachable sc0 sc" and "scene_ok sc0"
  shows "scene_ok sc"
  using assms by (induction rule: reachable.induct) (auto intro: step_scene_ok)

lemma initial_scene_ok: "scene_ok (initial_scene (createRope startX startY n L))"
  by (simp add: scene_ok_def initial_scene_def createRope_shape)

section \<open>Loops over the points of the rope\<close>

text \<open>A loop that in round \<open>i\<close> writes only the object \<open>pts ! i\<close>, over distinct indices
  of an array of distinct references.\<close>

lemma fold_pointwise:
  assumes dp: "distinct pts"
      and other: "\<And>i h b. b \<noteq> pts ! i \<Longrightarrow> f i h ! b = h ! b"
      and inv: "\<And>i h. i \<in> set js \<Longrightarrow> I h \<Longrightarrow> I (f i h)"
      and loc: "\<And>i h. i \<in> set js \<Longrightarrow> I h \<Longrightarrow> f i h ! (pts ! i) = g i (h ! (pts ! i))"
  shows "distinct js \<Longrightarrow> \<forall>i\<in>set js. i < length pts \<Longrightarrow> I h \<Longrightarrow> j < length pts \<Longrightarrow>
           fold f js h ! (pts ! j) = (if j \<in> set js then g j (h ! (pts ! j)) else h ! (pts ! j))"
  using inv loc
proof (induction js arbitrary: h)
  case Nil
  then show ?case by simp
next
  case (Cons i js)
  have I': "I (f i h)" using Cons.prems(3,5) by simp
  have IH: "fold f js (f i h) ! (pts ! j) =
              (if j \<in> set js then g j (f i h ! (pts ! j)) else f i h ! (pts ! j))"
    using Cons.prems by (intro Cons.IH) (simp_all add: I')
  show ?case
  proof (cases "j = i")
    case True
    then have "j \<notin> set js" using Cons.prems(1) by simp
    with True IH Cons.prems(3,6) show ?thesis by simp
  next
    case False
    have "i < length pts" using Cons.prems(2) by simp
    with False Cons.prems(4) dp have "pts ! j \<noteq> pts ! i"
      by (simp add: nth_eq_iff_index_eq)
    then have "f i h ! (pts ! j) = h ! (pts ! j)" by (rule other)
    with False IH show ?thesis by simp
  qed
qed

lemma fold_elsewhere:
  assumes other: "\<And>i h b. b \<noteq> pts ! i \<Longrightarrow> f i h ! b = h ! b"
  shows "\<forall>i\<in>set js. b \<noteq> pts ! i \<Longrightarrow> fold f js h ! b = h ! b"
  by (induction js arbitrary: h) (simp_all add: other)

lemma snag_point_same:
  "a < length h \<Longrightarrow>
     snag_point snagX snagY a h ! a =
       (if pinned (h ! a) then h ! a
        else if hypot (x (h ! a) - snagX) (y (h ! a) - snagY) < snag_threshold then
          \<lparr>x = snagX, y = snagY, oldx = snagX, oldy = snagY, pinned = True\<rparr>
        else h ! a)"
  by (simp add: snag_point_def Let_def)

lemma snag_pointwise:
  assumes dp: "distinct (points rope)" and rng: "\<forall>a\<in>set (points rope). a < length (heap rope)"
      and j: "j < length (points rope) - 1"
  shows "heap (snag (snagX, snagY) rope) ! (points rope ! j) =
           (let p = heap rope ! (points rope ! j)
            in if pinned p then p
               else if hypot (x p - snagX) (y p - snagY) < snag_threshold then
                 \<lparr>x = snagX, y = snagY, oldx = snagX, oldy = snagY, pinned = True\<rparr>
               else p)"
proof -
  let ?f = "\<lambda>i. snag_point snagX snagY (points rope ! i)"
  let ?g = "\<lambda>(i::nat) p. if pinned p then p
               else if hypot (x p - snagX) (y p - snagY) < snag_threshold then
                 \<lparr>x = snagX, y = snagY, oldx = snagX, oldy = snagY, pinned = True\<rparr>
               else p"
  let ?I = "\<lambda>h. length h = length (heap rope)"
  have "fold ?f [0..<length (points rope) - 1] (heap rope) ! (points rope ! j) =
          (if j \<in> set [0..<length (points rope) - 1] then ?g j (heap rope ! (points rope ! j))
           else heap rope ! (points rope ! j))"
  proof (rule fold_pointwise [where I = ?I and g = ?g])
    show "distinct (points rope)" by (rule dp)
    show "\<And>i h b. b \<noteq> points rope ! i \<Longrightarrow> ?f i h ! b = h ! b"
      by (rule snag_point_other)
    show "\<And>i h. i \<in> set [0..<length (points rope) - 1] \<Longrightarrow> ?I h \<Longrightarrow> ?I (?f i h)"
      by simp
    show "\<And>i h. i \<in> set [0..<length (points rope) - 1] \<Longrightarrow> ?I h \<Longrightarrow>
            ?f i h ! (points rope ! i) = ?g i (h ! (points rope ! i))"
      using rng by (subst snag_point_same) auto
    show "distinct [0..<length (points rope) - 1]" by simp
    show "\<forall>i\<in>set [0..<length (points rope) - 1]. i < length (points rope)" by auto
    show "?I (heap rope)" by simp
    show "j < length (points rope)" using j by simp
  qed
  with j show ?thesis by (simp add: snag_def Let_def)
qed

section \<open>Snagging on the mount\<close>

lemma fold_fixed:
  "\<forall>i\<in>set js. f i h = h \<Longrightarrow> fold f js h = h"
  by (induction js) simp_all

lemma snag_point_skip:
  "pinned (h ! a) \<or> \<not> hypot (x (h ! a) - snagX) (y (h ! a) - snagY) < snag_threshold
     \<Longrightarrow> snag_point snagX snagY a h = h"
  by (auto simp: snag_point_def Let_def)

lemma snag_idempotent:
  assumes dp: "distinct (points rope)" and rng: "\<forall>a\<in>set (points rope). a < length (heap rope)"
  shows "snag mount (snag mount rope) = snag mount rope"
proof -
  obtain snagX snagY where m: "mount = (snagX, snagY)" by (cases mount)
  let ?r = "snag (snagX, snagY) rope"
  have pts: "points ?r = points rope" by (simp add: snag_def Let_def)
  have "fold (\<lambda>i. snag_point snagX snagY (points rope ! i)) [0..<length (points rope) - 1] (heap ?r)
          = heap ?r"
  proof (rule fold_fixed, rule ballI)
    fix i assume "i \<in> set [0..<length (points rope) - 1]"
    then have i: "i < length (points rope) - 1" by simp
    show "snag_point snagX snagY (points rope ! i) (heap ?r) = heap ?r"
      by (rule snag_point_skip) (simp add: snag_pointwise [OF dp rng i] Let_def)
  qed
  then have "snag (snagX, snagY) ?r = ?r"
    by (simp add: snag_def [of _ ?r] pts Let_def)
  then show ?thesis by (simp add: m)
qed

lemma createRope_distinct: "distinct (points (createRope startX startY n L))"
  by (simp add: createRope_shape)

lemma reachable_wf:
  assumes "reachable (initial_scene (createRope startX startY n L)) sc"
  shows "\<exists>rope. ropeRef sc = Some rope \<and> distinct (points rope)
           \<and> (\<forall>a\<in>set (points rope). a < length (heap rope))
           \<and> (isDragging sc \<longrightarrow>
                points rope \<noteq> [] \<and>
                pointIndex sc = Some (length (points rope) - 1) \<and>
                pinned (heap rope ! (points rope ! (length (points rope) - 1))))"
proof -
  have "ropeRef (initial_scene (createRope startX startY n L)) = Some (createRope startX startY n L)"
    by (simp add: initial_scene_def)
  from reachable_same_structure [OF assms this] obtain rope where
    r: "ropeRef sc = Some rope" and s: "same_structure (createRope startX startY n L) rope"
    by blast
  from s have "distinct (points rope)" by (simp add: same_structure_def createRope_shape)
  moreover from reachable_scene_ok [OF assms initial_scene_ok] r
  have "(\<forall>a\<in>set (points rope). a < length (heap rope))
           \<and> (isDragging sc \<longrightarrow>
                points rope \<noteq> [] \<and>
                pointIndex sc = Some (length (points rope) - 1) \<and>
                pinned (heap rope ! (points rope ! (length (points rope) - 1))))"
    by (auto simp: scene_ok_def)
  ultimately show ?thesis using r by blast
qed

text \<open>
  C5. In every reachable scene that is dragging with the mount at \<open>(ax, ay)\<close>, the snag
  phase turns every point of the rope that is not pinned and less than 25 units from the
  mount into a pinned point at exactly \<open>(ax, ay)\<close> whose previous position is \<open>(ax, ay)\<close>
  too (implicit velocity zero). A pinned point, in particular one snagged before, is left
  exactly as it is, and running the snag phase again changes nothing.
\<close>

theorem snag_while_dragging:
  assumes "reachable (initial_scene (createRope startX startY n L)) sc"
      and "isDragging sc" and "mountRef sc = Some (ax, ay)"
  shows "\<exists>rope rope'. ropeRef sc = Some rope \<and> ropeRef (snag_phase sc) = Some rope'
           \<and> rope' = snag (ax, ay) rope
           \<and> (\<forall>i < length (points rope).
                let p = heap rope ! (points rope ! i);
                    p' = heap rope' ! (points rope ! i)
                in (\<not> pinned p \<and> hypot (x p - ax) (y p - ay) < snag_threshold \<longrightarrow>
                      p' = \<lparr>x = ax, y = ay, oldx = ax, oldy = ay, pinned = True\<rparr>
                      \<and> x p' - oldx p' = 0 \<and> y p' - oldy p' = 0)
                 \<and> (pinned p \<longrightarrow> p' = p))
           \<and> snag_phase (snag_phase sc) = snag_phase sc
           \<and> snag_threshold = 25"
proof -
  from reachable_wf [OF assms(1)] assms(2) obtain rope where
    r: "ropeRef sc = Some rope" and dp: "distinct (points rope)"
    and rng: "\<forall>a\<in>set (points rope). a < length (heap rope)"
    and ne: "points rope \<noteq> []"
    and lp: "pinned (heap rope ! (points rope ! (length (points rope) - 1)))"
    by blast
  let ?rope' = "snag (ax, ay) rope"
  have sp: "snag_phase sc = sc\<lparr>ropeRef := Some ?rope'\<rparr>"
    using r assms(2,3) by (simp add: snag_phase_def)
  have pw: "(\<not> pinned (heap rope ! (points rope ! i)) \<and>
             hypot (x (heap rope ! (points rope ! i)) - ax) (y (heap rope ! (points rope ! i)) - ay)
               < snag_threshold \<longrightarrow>
               heap ?rope' ! (points rope ! i) = \<lparr>x = ax, y = ay, oldx = ax, oldy = ay, pinned = True\<rparr>
               \<and> x (heap ?rope' ! (points rope ! i)) - oldx (heap ?rope' ! (points rope ! i)) = 0
               \<and> y (heap ?rope' ! (points rope ! i)) - oldy (heap ?rope' ! (points rope ! i)) = 0)
           \<and> (pinned (heap rope ! (points rope ! i)) \<longrightarrow>
                heap ?rope' ! (points rope ! i) = heap rope ! (points rope ! i))"
    if i: "i < length (points rope)" for i
  proof (cases "i < length (points rope) - 1")
    case True
    from snag_pointwise [OF dp rng True, of ax ay] show ?thesis by (simp add: Let_def)
  next
    case False
    with i have "i = length (points rope) - 1" by simp
    with lp show ?thesis by (simp add: snag_pinned_unchanged)
  qed
  have "snag_phase (sc\<lparr>ropeRef := Some ?rope'\<rparr>) = sc\<lparr>ropeRef := Some (snag (ax, ay) ?rope')\<rparr>"
    using assms(2,3) by (simp add: snag_phase_def)
  then have idem: "snag_phase (snag_phase sc) = snag_phase sc"
    unfolding sp by (simp add: snag_idempotent [OF dp rng])
  have thr: "snag_threshold = 25" by (simp add: snag_threshold_def)
  from r sp pw idem thr show ?thesis by (simp add: Let_def)
qed


lemma createRope_3_10:
  "createRope 0 0 3 10 =
     \<lparr> heap = [\<lparr>x = 0, y = 0, oldx = 0, oldy = 0, pinned = True\<rparr>,
               \<lparr>x = 0, y = 10, oldx = 0, oldy = 10, pinned = False\<rparr>,
               \<lparr>x = 0, y = 20, oldx = 0, oldy = 20, pinned = False\<rparr>],
       points = [0, 1, 2],
       sticks = [\<lparr>p1 = 0, p2 = 1, length' = 10\<rparr>, \<lparr>p1 = 1, p2 = 2, length' = 10\<rparr>],
       iterations = 600 \<rparr>"
  by (simp add: createRope_def new_point_def Let_def eval_nat_numeral)

lemma example_drag_reachable:
  "reachable (initial_scene (createRope 0 0 3 10)) example_drag"
proof -
  let ?sc0 = "initial_scene (createRope 0 0 3 10)"
  let ?sc1 = "?sc0\<lparr>mouseRef := (0, 12), mountRef := Some (0, 12)\<rparr>"
  have s1: "step (PointerDown 0 12 True) ?sc0 = Inr ?sc1"
    by (simp add: handlePointerDown_def initial_scene_def)
  have s2: "step (PointerDown 0 20 False) ?sc1 = Inr example_drag"
    by (simp add: handlePointerDown_def initial_scene_def createRope_3_10 hypot_def
          grab_radius_def example_drag_def example_rope3_def Let_def)
  from reachable.after [OF reachable.after [OF reachable.start s1] s2] show ?thesis .
qed

theorem snag_while_dragging_witness:
  "reachable (initial_scene (createRope 0 0 3 10)) example_drag
   \<and> isDragging example_drag \<and> mountRef example_drag = Some (0, 12)
   \<and> (\<exists>rope rope'. ropeRef example_drag = Some rope
         \<and> ropeRef (snag_phase example_drag) = Some rope'
         \<and> \<not> pinned (heap rope ! (points rope ! 1))
         \<and> hypot (x (heap rope ! (points rope ! 1)) - 0) (y (heap rope ! (points rope ! 1)) - 12)
              < snag_threshold
         \<and> heap rope' ! (points rope ! 1) = \<lparr>x = 0, y = 12, oldx = 0, oldy = 12, pinned = True\<rparr>)"
proof -
  have a: "isDragging example_drag" and b: "mountRef example_drag = Some (0, 12)"
    by (simp_all add: example_drag_def example_rope3_def)
  from snag_while_dragging [OF example_drag_reachable a b] obtain rope rope' where
    r: "ropeRef example_drag = Some rope" and r': "ropeRef (snag_phase example_drag) = Some rope'"
    and pw: "\<forall>i < length (points rope).
                let p = heap rope ! (points rope ! i);
                    p' = heap rope' ! (points rope ! i)
                in (\<not> pinned p \<and> hypot (x p - 0) (y p - 12) < snag_threshold \<longrightarrow>
                      p' = \<lparr>x = 0, y = 12, oldx = 0, oldy = 12, pinned = True\<rparr>
                      \<and> x p' - oldx p' = 0 \<and> y p' - oldy p' = 0)
                 \<and> (pinned p \<longrightarrow> p' = p)"
    by blast
  from r have len: "1 < length (points rope)"
    and np: "\<not> pinned (heap rope ! (points rope ! 1))"
    and d: "hypot (x (heap rope ! (points rope ! 1)) - 0) (y (heap rope ! (points rope ! 1)) - 12)
              < snag_threshold"
    by (auto simp: example_drag_def example_rope3_def hypot_def snag_threshold_def)
  from pw len np d have "heap rope' ! (points rope ! 1)
      = \<lparr>x = 0, y = 12, oldx = 0, oldy = 12, pinned = True\<rparr>"
    by (auto simp: Let_def)
  with example_drag_reachable a b r r' np d show ?thesis by blast
qed

section \<open>The winch\<close>

lemma find_rev_upt_Some:
  "List.find P (rev [0..<m]) = Some k \<longleftrightarrow> k < m \<and> P k \<and> (\<forall>i. k < i \<and> i < m \<longrightarrow> \<not> P i)"
proof (induction m)
  case 0
  then show ?case by simp
next
  case (Suc m)
  show ?case
  proof (cases "P m")
    case True
    then show ?thesis
      by (auto simp: less_Suc_eq)
  next
    case False
    then show ?thesis using Suc by (auto simp: less_Suc_eq)
  qed
qed

lemma find_rev_upt_None:
  "List.find P (rev [0..<m]) = None \<longleftrightarrow> (\<forall>i<m. \<not> P i)"
  by (auto simp: find_None_iff)

lemma find_anchor_spec:
  "(let k = find_anchor pts h
    in if \<exists>i<length pts - 1. pinned (h ! (pts ! i))
       then k < length pts - 1 \<and> pinned (h ! (pts ! k)) \<and>
            (\<forall>i. k < i \<and> i < length pts - 1 \<longrightarrow> \<not> pinned (h ! (pts ! i)))
       else k = 0)"
proof (cases "List.find (\<lambda>i. pinned (h ! (pts ! i))) (rev [0..<length pts - 1])")
  case None
  note None [unfolded find_rev_upt_None]
  then show ?thesis
    unfolding find_anchor_def Let_def None by auto
next
  case (Some k)
  note Some [unfolded find_rev_upt_Some]
  then show ?thesis
    unfolding find_anchor_def Let_def Some by auto
qed

lemma find_anchor_less: "pts \<noteq> [] \<Longrightarrow> find_anchor pts h < length pts"
  using find_anchor_spec [of pts h]
  by (auto simp: Let_def split: if_splits)

lemma set_stick_length_nth:
  "i < length sts \<Longrightarrow>
     set_stick_length l j sts ! i = (if i = j then (sts ! i)\<lparr>length' := l\<rparr> else sts ! i)"
  by (simp add: set_stick_length_def)

lemma set_stick_length_length [simp]: "length (set_stick_length l j sts) = length sts"
  by (simp add: set_stick_length_def)

lemma fold_set_stick_length_length [simp]:
  "length (fold (set_stick_length l) js sts) = length sts"
  by (induction js arbitrary: sts) simp_all

lemma fold_set_stick_length_nth:
  "i < length sts \<Longrightarrow>
     fold (set_stick_length l) js sts ! i =
       (if i \<in> set js then (sts ! i)\<lparr>length' := l\<rparr> else sts ! i)"
  by (induction js arbitrary: sts) (auto simp: set_stick_length_nth)

lemma winch_point_other:
  "b \<noteq> pts ! (anchorIndex + i) \<Longrightarrow>
     winch_point pts anchor dx dy n anchorIndex dragIndex i h ! b = h ! b"
  by (simp add: winch_point_def Let_def)

lemma winch_point_same:
  "pts ! (anchorIndex + i) < length h \<Longrightarrow>
     winch_point pts anchor dx dy n anchorIndex dragIndex i h ! (pts ! (anchorIndex + i)) =
       \<lparr>x = x (h ! anchor) + dx * (real i / real n),
        y = y (h ! anchor) + dy * (real i / real n),
        oldx = x (h ! anchor) + dx * (real i / real n),
        oldy = y (h ! anchor) + dy * (real i / real n),
        pinned = (pinned (h ! (pts ! (anchorIndex + i))) \<or> Some (anchorIndex + i) = dragIndex)\<rparr>"
  by (simp add: winch_point_def Let_def)


lemma winch_fold:
  fixes pts :: "ref list" and h :: store and dx dy :: real and dragIndex :: "nat option"
    and k n :: nat
  assumes dp: "distinct pts" and rng: "\<forall>a\<in>set pts. a < length h" and kn: "k + n < length pts"
  defines "H \<equiv> fold (winch_point pts (pts ! k) dx dy n k dragIndex) [1..<n + 1] h"
  shows "1 \<le> i \<Longrightarrow> i \<le> n \<Longrightarrow>
           H ! (pts ! (k + i)) =
             \<lparr>x = x (h ! (pts ! k)) + dx * (real i / real n),
              y = y (h ! (pts ! k)) + dy * (real i / real n),
              oldx = x (h ! (pts ! k)) + dx * (real i / real n),
              oldy = y (h ! (pts ! k)) + dy * (real i / real n),
              pinned = (pinned (h ! (pts ! (k + i))) \<or> Some (k + i) = dragIndex)\<rparr>"
    and "j \<le> k \<Longrightarrow> H ! (pts ! j) = h ! (pts ! j)"
    and "length H = length h"
proof -
  let ?f = "winch_point pts (pts ! k) dx dy n k dragIndex"
  let ?pts = "drop k pts"
  let ?I = "\<lambda>h'. length h' = length h \<and> h' ! (pts ! k) = h ! (pts ! k)"
  let ?g = "\<lambda>(i::nat) p.
             \<lparr>x = x (h ! (pts ! k)) + dx * (real i / real n),
              y = y (h ! (pts ! k)) + dy * (real i / real n),
              oldx = x (h ! (pts ! k)) + dx * (real i / real n),
              oldy = y (h ! (pts ! k)) + dy * (real i / real n),
              pinned = (pinned p \<or> Some (k + i) = dragIndex)\<rparr>"
  have klen: "k \<le> length pts" using kn by simp
  have nd: "?pts ! i = pts ! (k + i)" for i using klen by simp
  have other: "\<And>i h' b. b \<noteq> ?pts ! i \<Longrightarrow> ?f i h' ! b = h' ! b"
    unfolding nd by (rule winch_point_other)
  have neq: "pts ! k \<noteq> pts ! (k + i)" if "i \<in> set [1..<n + 1]" for i
  proof -
    from that have "1 \<le> i" and "i \<le> n" by auto
    with kn have "k < length pts" and "k + i < length pts" and "k \<noteq> k + i" by simp_all
    with dp show ?thesis by (simp add: nth_eq_iff_index_eq)
  qed
  have inr: "pts ! (k + i) < length h" if "i \<in> set [1..<n + 1]" for i
  proof -
    from that kn have "k + i < length pts" by auto
    then have "pts ! (k + i) \<in> set pts" by (rule nth_mem)
    with rng show ?thesis by blast
  qed
  show "length H = length h"
    unfolding H_def by (rule fold_length) simp
  show "H ! (pts ! (k + i)) = ?g i (h ! (pts ! (k + i)))" if "1 \<le> i" and "i \<le> n"
  proof -
    have "fold ?f [1..<n + 1] h ! (?pts ! i) =
            (if i \<in> set [1..<n + 1] then ?g i (h ! (?pts ! i)) else h ! (?pts ! i))"
    proof (rule fold_pointwise [where I = ?I and g = ?g])
      show "distinct ?pts" using dp by simp
      show "\<And>i h' b. b \<noteq> ?pts ! i \<Longrightarrow> ?f i h' ! b = h' ! b" by (rule other)
      show "\<And>i h'. i \<in> set [1..<n + 1] \<Longrightarrow> ?I h' \<Longrightarrow> ?I (?f i h')"
        using neq by (simp add: winch_point_other)
      show "\<And>i h'. i \<in> set [1..<n + 1] \<Longrightarrow> ?I h' \<Longrightarrow> ?f i h' ! (?pts ! i) = ?g i (h' ! (?pts ! i))"
        unfolding nd using inr by (simp add: winch_point_same)
      show "distinct [1..<n + 1]" by simp
      show "\<forall>i\<in>set [1..<n + 1]. i < length ?pts" using kn by auto
      show "?I h" by simp
      show "i < length ?pts" using that kn by simp
    qed
    with that show ?thesis unfolding H_def nd by simp
  qed
  show "H ! (pts ! j) = h ! (pts ! j)" if "j \<le> k"
  proof -
    have "pts ! j \<noteq> pts ! (k + i)" if "i \<in> set [1..<n + 1]" for i
    proof -
      from that have "1 \<le> i" and "i \<le> n" by auto
      with kn \<open>j \<le> k\<close> have "j < length pts" and "k + i < length pts" and "j \<noteq> k + i"
        by simp_all
      with dp show ?thesis by (simp add: nth_eq_iff_index_eq)
    qed
    then have "\<forall>i\<in>set [1..<n + 1]. pts ! j \<noteq> ?pts ! i"
      unfolding nd by blast
    with fold_elsewhere [where pts = ?pts and f = ?f and js = "[1..<n + 1]"
           and b = "pts ! j" and h = h, OF other]
    show ?thesis unfolding H_def by blast
  qed
qed

lemma winch_active:
  assumes "points rope \<noteq> []"
      and "0 < length (points rope) - 1 - find_anchor (points rope) (heap rope)"
  shows "winch (tx, ty) dragIndex rope =
           (let pts = points rope;
                h = heap rope;
                k = find_anchor pts h;
                dx = tx - x (h ! (pts ! k));
                dy = ty - y (h ! (pts ! k));
                n = length pts - 1 - k
            in Inr (rope\<lparr>heap := fold (winch_point pts (pts ! k) dx dy n k dragIndex) [1..<n + 1] h,
                         sticks := fold (set_stick_length (sqrt (dx * dx + dy * dy) / real n))
                                     [k..<length (sticks rope)] (sticks rope)\<rparr>))"
  using assms by (simp add: winch_def Let_def)

lemma winch_skipped:
  assumes "points rope \<noteq> []"
      and "length (points rope) - 1 - find_anchor (points rope) (heap rope) = 0"
  shows "winch mouse dragIndex rope = Inr rope"
  using assms by (simp add: winch_def Let_def)

text \<open>
  C2. In every reachable scene that is dragging, with the pointer at \<open>(tx, ty)\<close>: the
  anchor index is the greatest index at most \<open>points.length - 2\<close> of a pinned point, or
  0 when there is none; with \<open>n = (points.length - 1) - anchorIndex\<close> and \<open>d\<close> the distance
  from the anchor to the pointer, if \<open>n > 0\<close> the winch succeeds, every stick from index
  \<open>anchorIndex\<close> to the last gets length \<open>d / n\<close> (the sticks before it are as they were),
  and each point at index \<open>anchorIndex + i\<close>, \<open>1 \<le> i \<le> n\<close>, is at
  \<open>anchor + (i / n) * (target - anchor)\<close>, on the line from the anchor to the pointer,
  with its previous position equal to its position (implicit velocity zero), while the
  points up to the anchor are untouched; if \<open>n = 0\<close> the winch changes nothing.
\<close>

theorem winch_redistributes:
  assumes "reachable (initial_scene (createRope startX startY m L)) sc"
      and "isDragging sc" and "mouseRef sc = (tx, ty)"
  shows "\<exists>rope. ropeRef sc = Some rope \<and>
     (let pts = points rope;
          h = heap rope;
          anchorIndex = find_anchor pts h;
          anchor = h ! (pts ! anchorIndex);
          n = (length pts - 1) - anchorIndex;
          d = sqrt ((tx - x anchor) * (tx - x anchor) + (ty - y anchor) * (ty - y anchor))
      in anchorIndex < length pts
       \<and> (if \<exists>i<length pts - 1. pinned (h ! (pts ! i))
          then anchorIndex < length pts - 1 \<and> pinned anchor \<and>
               (\<forall>i. anchorIndex < i \<and> i < length pts - 1 \<longrightarrow> \<not> pinned (h ! (pts ! i)))
          else anchorIndex = 0)
       \<and> length (sticks rope) = length pts - 1
       \<and> (0 < n \<longrightarrow>
            (\<exists>rope'. winch_phase sc = Inr (sc\<lparr>ropeRef := Some rope'\<rparr>)
               \<and> points rope' = pts
               \<and> length (sticks rope') = length (sticks rope)
               \<and> (\<forall>i. anchorIndex \<le> i \<and> i < length (sticks rope) \<longrightarrow>
                      sticks rope' ! i = (sticks rope ! i)\<lparr>length' := d / real n\<rparr>)
               \<and> (\<forall>i < anchorIndex. sticks rope' ! i = sticks rope ! i)
               \<and> (\<forall>i. 1 \<le> i \<and> i \<le> n \<longrightarrow>
                     (let p' = heap rope' ! (pts ! (anchorIndex + i))
                      in x p' = x anchor + (real i / real n) * (tx - x anchor)
                       \<and> y p' = y anchor + (real i / real n) * (ty - y anchor)
                       \<and> (x p' - x anchor) * (ty - y anchor) = (y p' - y anchor) * (tx - x anchor)
                       \<and> oldx p' = x p' \<and> oldy p' = y p'
                       \<and> x p' - oldx p' = 0 \<and> y p' - oldy p' = 0))
               \<and> (\<forall>j \<le> anchorIndex. heap rope' ! (pts ! j) = h ! (pts ! j))))
       \<and> (n = 0 \<longrightarrow> winch_phase sc = Inr sc))"
proof -
  from reachable_wf [OF assms(1)] assms(2) obtain rope where
    r: "ropeRef sc = Some rope" and dp: "distinct (points rope)"
    and rng: "\<forall>a\<in>set (points rope). a < length (heap rope)"
    and ne: "points rope \<noteq> []"
    and pi: "pointIndex sc = Some (length (points rope) - 1)"
    by blast
  have "ropeRef (initial_scene (createRope startX startY m L)) = Some (createRope startX startY m L)"
    by (simp add: initial_scene_def)
  from reachable_same_structure [OF assms(1) this] r
  have s: "same_structure (createRope startX startY m L) rope" by simp
  have "length (map p1 (sticks rope)) = length (map p1 (sticks (createRope startX startY m L)))"
    using s by (simp only: same_structure_def)
  moreover have "points rope = points (createRope startX startY m L)"
    using s by (simp only: same_structure_def)
  ultimately have sl: "length (sticks rope) = length (points rope) - 1"
    by (simp add: createRope_shape)
  let ?pts = "points rope"
  let ?h = "heap rope"
  let ?k = "find_anchor ?pts ?h"
  let ?A = "?h ! (?pts ! ?k)"
  let ?n = "length ?pts - 1 - ?k"
  let ?dx = "tx - x ?A"
  let ?dy = "ty - y ?A"
  let ?d = "sqrt (?dx * ?dx + ?dy * ?dy)"
  have klt: "?k < length ?pts" using ne by (simp add: find_anchor_less)
  then have kn: "?k + ?n < length ?pts" by simp
  have wp: "winch_phase sc = (case winch (tx, ty) (pointIndex sc) rope of
               Inl e \<Rightarrow> Inl e | Inr rope' \<Rightarrow> Inr (sc\<lparr>ropeRef := Some rope'\<rparr>))"
    using r assms(2,3) pi by (simp add: winch_phase_def)
  have active: "\<exists>rope'. winch_phase sc = Inr (sc\<lparr>ropeRef := Some rope'\<rparr>)
               \<and> points rope' = ?pts
               \<and> length (sticks rope') = length (sticks rope)
               \<and> (\<forall>i. ?k \<le> i \<and> i < length (sticks rope) \<longrightarrow>
                      sticks rope' ! i = (sticks rope ! i)\<lparr>length' := ?d / real ?n\<rparr>)
               \<and> (\<forall>i < ?k. sticks rope' ! i = sticks rope ! i)
               \<and> (\<forall>i. 1 \<le> i \<and> i \<le> ?n \<longrightarrow>
                       x (heap rope' ! (?pts ! (?k + i))) = x ?A + (real i / real ?n) * ?dx
                     \<and> y (heap rope' ! (?pts ! (?k + i))) = y ?A + (real i / real ?n) * ?dy
                     \<and> (x (heap rope' ! (?pts ! (?k + i))) - x ?A) * ?dy
                         = (y (heap rope' ! (?pts ! (?k + i))) - y ?A) * ?dx
                     \<and> oldx (heap rope' ! (?pts ! (?k + i))) = x (heap rope' ! (?pts ! (?k + i)))
                     \<and> oldy (heap rope' ! (?pts ! (?k + i))) = y (heap rope' ! (?pts ! (?k + i)))
                     \<and> x (heap rope' ! (?pts ! (?k + i))) - oldx (heap rope' ! (?pts ! (?k + i))) = 0
                     \<and> y (heap rope' ! (?pts ! (?k + i))) - oldy (heap rope' ! (?pts ! (?k + i))) = 0)
               \<and> (\<forall>j \<le> ?k. heap rope' ! (?pts ! j) = ?h ! (?pts ! j))"
    if npos: "0 < ?n"
  proof -
    let ?H = "fold (winch_point ?pts (?pts ! ?k) ?dx ?dy ?n ?k (pointIndex sc)) [1..<?n + 1] ?h"
    let ?S = "fold (set_stick_length (?d / real ?n)) [?k..<length (sticks rope)] (sticks rope)"
    let ?rope' = "rope\<lparr>heap := ?H, sticks := ?S\<rparr>"
    have w: "winch (tx, ty) (pointIndex sc) rope = Inr ?rope'"
      using winch_active [OF ne, of tx ty "pointIndex sc"] npos
      by (simp add: Let_def)
    note wf = winch_fold [OF dp rng kn, where dx = ?dx and dy = ?dy
                            and dragIndex = "pointIndex sc"]
    have L: "points ?rope' = ?pts" "length (sticks ?rope') = length (sticks rope)"
      and LH: "heap ?rope' = ?H" and LS: "sticks ?rope' = ?S"
      by simp_all
    have P: "\<forall>i. 1 \<le> i \<and> i \<le> ?n \<longrightarrow>
                x (heap ?rope' ! (?pts ! (?k + i))) = x ?A + (real i / real ?n) * ?dx
              \<and> y (heap ?rope' ! (?pts ! (?k + i))) = y ?A + (real i / real ?n) * ?dy
              \<and> (x (heap ?rope' ! (?pts ! (?k + i))) - x ?A) * ?dy
                  = (y (heap ?rope' ! (?pts ! (?k + i))) - y ?A) * ?dx
              \<and> oldx (heap ?rope' ! (?pts ! (?k + i))) = x (heap ?rope' ! (?pts ! (?k + i)))
              \<and> oldy (heap ?rope' ! (?pts ! (?k + i))) = y (heap ?rope' ! (?pts ! (?k + i)))
              \<and> x (heap ?rope' ! (?pts ! (?k + i))) - oldx (heap ?rope' ! (?pts ! (?k + i))) = 0
              \<and> y (heap ?rope' ! (?pts ! (?k + i))) - oldy (heap ?rope' ! (?pts ! (?k + i))) = 0"
    proof (intro allI impI)
      fix i assume "1 \<le> i \<and> i \<le> ?n"
      then have "1 \<le> i" and "i \<le> ?n" by blast+
      note e = wf(1) [OF this]
      show "x (heap ?rope' ! (?pts ! (?k + i))) = x ?A + (real i / real ?n) * ?dx
              \<and> y (heap ?rope' ! (?pts ! (?k + i))) = y ?A + (real i / real ?n) * ?dy
              \<and> (x (heap ?rope' ! (?pts ! (?k + i))) - x ?A) * ?dy
                  = (y (heap ?rope' ! (?pts ! (?k + i))) - y ?A) * ?dx
              \<and> oldx (heap ?rope' ! (?pts ! (?k + i))) = x (heap ?rope' ! (?pts ! (?k + i)))
              \<and> oldy (heap ?rope' ! (?pts ! (?k + i))) = y (heap ?rope' ! (?pts ! (?k + i)))
              \<and> x (heap ?rope' ! (?pts ! (?k + i))) - oldx (heap ?rope' ! (?pts ! (?k + i))) = 0
              \<and> y (heap ?rope' ! (?pts ! (?k + i))) - oldy (heap ?rope' ! (?pts ! (?k + i))) = 0"
        unfolding LH e by simp
    qed
    have S1: "\<forall>i. ?k \<le> i \<and> i < length (sticks rope) \<longrightarrow>
                sticks ?rope' ! i = (sticks rope ! i)\<lparr>length' := ?d / real ?n\<rparr>"
      unfolding LS by (simp add: fold_set_stick_length_nth)
    have S2: "\<forall>i < ?k. sticks ?rope' ! i = sticks rope ! i"
    proof (intro allI impI)
      fix i assume a: "i < ?k"
      with klt sl have "i < length (sticks rope)" by simp
      with a show "sticks ?rope' ! i = sticks rope ! i"
        unfolding LS by (simp add: fold_set_stick_length_nth)
    qed
    have W: "winch_phase sc = Inr (sc\<lparr>ropeRef := Some ?rope'\<rparr>)"
      unfolding wp w by simp
    have F: "\<forall>j \<le> ?k. heap ?rope' ! (?pts ! j) = ?h ! (?pts ! j)"
      unfolding LH using wf(2) by blast
    show ?thesis
      by (rule exI [of _ ?rope']) (intro conjI W L S1 S2 P F)
  qed
  have skipped: "winch_phase sc = Inr sc" if "?n = 0"
  proof -
    have "winch (tx, ty) (pointIndex sc) rope = Inr rope"
      using that by (intro winch_skipped [OF ne])
    then show ?thesis unfolding wp using r by simp
  qed
  have spec: "if \<exists>i<length ?pts - 1. pinned (?h ! (?pts ! i))
          then ?k < length ?pts - 1 \<and> pinned ?A \<and>
               (\<forall>i. ?k < i \<and> i < length ?pts - 1 \<longrightarrow> \<not> pinned (?h ! (?pts ! i)))
          else ?k = 0"
    using find_anchor_spec [of ?pts ?h] unfolding Let_def .
  show ?thesis
    unfolding Let_def
    by (rule exI [of _ rope]) (intro conjI impI r klt spec sl active skipped; assumption)
qed


lemma example_rope3_anchor:
  "find_anchor (points example_rope3) (heap example_rope3) = 0"
  "length (points example_rope3) - 1 - 0 = 2"
  "heap example_rope3 ! (points example_rope3 ! 0) = \<lparr>x = 0, y = 0, oldx = 0, oldy = 0, pinned = True\<rparr>"
  "points example_rope3 ! (0 + 1) = 1" "length (sticks example_rope3) = 2"
  by (simp_all add: find_anchor_def example_rope3_def eval_nat_numeral)

lemma the_rope: "\<exists>rope. r = Some rope \<and> P rope \<Longrightarrow> r = Some R \<Longrightarrow> P R"
  by auto

theorem winch_redistributes_witness:
  "reachable (initial_scene (createRope 0 0 3 10)) (handlePointerMove 0 2 example_drag)
   \<and> isDragging (handlePointerMove 0 2 example_drag)
   \<and> mouseRef (handlePointerMove 0 2 example_drag) = (0, 2)
   \<and> (\<exists>rope'. winch_phase (handlePointerMove 0 2 example_drag)
                  = Inr ((handlePointerMove 0 2 example_drag)\<lparr>ropeRef := Some rope'\<rparr>)
         \<and> x (heap rope' ! 1) = 0 \<and> y (heap rope' ! 1) = 1
         \<and> oldx (heap rope' ! 1) = 0 \<and> oldy (heap rope' ! 1) = 1
         \<and> length' (sticks rope' ! 0) = 1)"
proof -
  let ?sc = "handlePointerMove 0 2 example_drag"
  have "step (PointerMove 0 2) example_drag = Inr ?sc" by simp
  from reachable.after [OF example_drag_reachable this]
  have a: "reachable (initial_scene (createRope 0 0 3 10)) ?sc" .
  have b: "isDragging ?sc" and c: "mouseRef ?sc = (0, 2)"
    and r: "ropeRef ?sc = Some example_rope3"
    by (simp_all add: handlePointerMove_def example_drag_def)
  have n: "(0::nat) < 2" by simp
  note T = the_rope [OF winch_redistributes [OF a b c] r, unfolded Let_def example_rope3_anchor]
  note E = T [THEN conjunct2, THEN conjunct2, THEN conjunct2, THEN conjunct1, THEN mp, OF n]
  from E have "\<exists>rope'. winch_phase ?sc = Inr (?sc\<lparr>ropeRef := Some rope'\<rparr>)
         \<and> x (heap rope' ! 1) = 0 \<and> y (heap rope' ! 1) = 1
         \<and> oldx (heap rope' ! 1) = 0 \<and> oldy (heap rope' ! 1) = 1
         \<and> length' (sticks rope' ! 0) = 1"
  proof (elim exE conjE, goal_cases)
    case (1 rope')
    from 1(6) [rule_format, of 1] have p: "x (heap rope' ! 1) = 0 \<and> y (heap rope' ! 1) = 1
         \<and> oldx (heap rope' ! 1) = 0 \<and> oldy (heap rope' ! 1) = 1"
      by (simp add: example_rope3_def)
    from 1(4) [rule_format, of 0] have s: "length' (sticks rope' ! 0) = 1"
      by (simp add: example_rope3_def)
    from 1(1) p s show ?case by blast
  qed
  with a b c show ?thesis by blast
qed

end
